theory Spec2Isabelle
  imports Complex_Main
begin

section \<open>JavaScript values used by the editor\<close>

text \<open>
  Numbers are JavaScript doubles in the source.  They are modelled as exact reals; the one
  operation of the source that can leave the finite numbers, the division in
  \<^verbatim>\<open>applyCurrentCrop\<close>, has its own result type below.  Strings are \<^typ>\<open>string\<close>;
  a value of type \<^verbatim>\<open>T | null\<close> or an optional field \<^verbatim>\<open>f?: T\<close> is a
  \<^typ>\<open>'a option\<close>, with \<^term>\<open>None\<close> for \<^verbatim>\<open>null\<close>/\<^verbatim>\<open>undefined\<close>.
\<close>

text \<open>Truthiness, as used by \<^verbatim>\<open>!v\<close>, \<^verbatim>\<open>a && b\<close> and \<^verbatim>\<open>a || b\<close>.\<close>

definition truthy :: "string option \<Rightarrow> string option" where
  \<comment> \<open>the string when the value is truthy: \<^verbatim>\<open>null\<close>, \<^verbatim>\<open>undefined\<close> and \<^verbatim>\<open>''\<close> are falsy\<close>
  "truthy s = (case s of None \<Rightarrow> None | Some v \<Rightarrow> if v = [] then None else Some v)"

definition num_or :: "real option \<Rightarrow> real \<Rightarrow> real" where
  \<comment> \<open>\<^verbatim>\<open>a || b\<close> on an optional number: \<^verbatim>\<open>undefined\<close> and \<^verbatim>\<open>0\<close> are falsy\<close>
  "num_or a b = (case a of None \<Rightarrow> b | Some v \<Rightarrow> if v = 0 then b else v)"

definition str_or :: "string option \<Rightarrow> string \<Rightarrow> string" where
  \<comment> \<open>\<^verbatim>\<open>a || b\<close> on an optional string: \<^verbatim>\<open>undefined\<close> and \<^verbatim>\<open>''\<close> are falsy\<close>
  "str_or a b = (case a of None \<Rightarrow> b | Some v \<Rightarrow> if v = [] then b else v)"

subsection \<open>Arrays\<close>

text \<open>
  Indices are integers, as the callers pass them.  \<^verbatim>\<open>xs[i]\<close> is \<^verbatim>\<open>undefined\<close>
  outside the array.
\<close>

definition js_index :: "'a list \<Rightarrow> int \<Rightarrow> 'a option" where
  "js_index xs i = (if 0 \<le> i \<and> i < int (length xs) then Some (xs ! nat i) else None)"

text \<open>
  \<^verbatim>\<open>Array.prototype.slice\<close> and \<^verbatim>\<open>splice\<close> take relative indices: a negative index
  counts from the end of the array, and the result is clamped to \<open>[0, length]\<close>.
\<close>

definition rel_index :: "nat \<Rightarrow> int \<Rightarrow> nat" where
  "rel_index len i = (if i < 0 then nat (max (int len + i) 0) else min (nat i) len)"

definition js_slice :: "'a list \<Rightarrow> int \<Rightarrow> int \<Rightarrow> 'a list" where
  \<comment> \<open>\<^verbatim>\<open>xs.slice(start, end)\<close>\<close>
  "js_slice xs start end' =
     (let k = rel_index (length xs) start; final = rel_index (length xs) end'
      in take (final - k) (drop k xs))"

definition js_splice :: "'a list \<Rightarrow> int \<Rightarrow> nat \<Rightarrow> 'a list \<Rightarrow> 'a list \<times> 'a list" where
  \<comment> \<open>\<^verbatim>\<open>xs.splice(start, deleteCount, ...items)\<close>: the array afterwards, and the array
      of removed elements that the call returns\<close>
  "js_splice xs start deleteCount items =
     (let s = rel_index (length xs) start;
          d = min deleteCount (length xs - s)
      in (take s xs @ items @ drop (s + d) xs, take d (drop s xs)))"

definition first_of :: "'a option list \<Rightarrow> 'a option" where
  \<comment> \<open>the destructuring \<^verbatim>\<open>const [moved] = removed\<close>: \<^verbatim>\<open>undefined\<close> when nothing was removed\<close>
  "first_of removed = (case removed of [] \<Rightarrow> None | m # _ \<Rightarrow> m)"

section \<open>Layer model (types.ts)\<close>

datatype LayerType = Image | Text | Drawing

record layer =
  layer_id :: string
  layer_type :: LayerType
  layer_name :: string
  layer_visible :: bool
  layer_locked :: bool
  layer_opacity :: real
  layer_x :: real
  layer_y :: real
  layer_rotation :: real
  layer_scale :: real
  layer_width :: "real option"
  layer_height :: "real option"
  layer_src :: "string option"
  layer_text :: "string option"
  layer_fontSize :: "real option"
  layer_color :: "string option"
  layer_fontFamily :: "string option"
  layer_fontWeight :: "string option"

text \<open>
  \<^verbatim>\<open>Partial<Layer>\<close>: every key may be missing (\<^term>\<open>None\<close>).  An optional field of
  \<^verbatim>\<open>Layer\<close> may also be present with the value \<^verbatim>\<open>undefined\<close> (\<^term>\<open>Some None\<close>), which
  the object spread copies like any other value.
\<close>

record layer_updates =
  upd_id :: "string option"
  upd_type :: "LayerType option"
  upd_name :: "string option"
  upd_visible :: "bool option"
  upd_locked :: "bool option"
  upd_opacity :: "real option"
  upd_x :: "real option"
  upd_y :: "real option"
  upd_rotation :: "real option"
  upd_scale :: "real option"
  upd_width :: "real option option"
  upd_height :: "real option option"
  upd_src :: "string option option"
  upd_text :: "string option option"
  upd_fontSize :: "real option option"
  upd_color :: "string option option"
  upd_fontFamily :: "string option option"
  upd_fontWeight :: "string option option"

definition no_updates :: layer_updates where
  "no_updates = \<lparr> upd_id = None, upd_type = None, upd_name = None, upd_visible = None,
     upd_locked = None, upd_opacity = None, upd_x = None, upd_y = None, upd_rotation = None,
     upd_scale = None, upd_width = None, upd_height = None, upd_src = None, upd_text = None,
     upd_fontSize = None, upd_color = None, upd_fontFamily = None, upd_fontWeight = None \<rparr>"

definition over :: "'a \<Rightarrow> 'a option \<Rightarrow> 'a" where
  \<comment> \<open>one key of \<^verbatim>\<open>{ ...l, ...updates }\<close>: the update's value when the key is present\<close>
  "over old new = (case new of None \<Rightarrow> old | Some v \<Rightarrow> v)"

definition spread :: "layer \<Rightarrow> layer_updates \<Rightarrow> layer" where
  \<comment> \<open>\<^verbatim>\<open>{ ...l, ...updates }\<close>\<close>
  "spread l u = \<lparr>
     layer_id = over (layer_id l) (upd_id u),
     layer_type = over (layer_type l) (upd_type u),
     layer_name = over (layer_name l) (upd_name u),
     layer_visible = over (layer_visible l) (upd_visible u),
     layer_locked = over (layer_locked l) (upd_locked u),
     layer_opacity = over (layer_opacity l) (upd_opacity u),
     layer_x = over (layer_x l) (upd_x u),
     layer_y = over (layer_y l) (upd_y u),
     layer_rotation = over (layer_rotation l) (upd_rotation u),
     layer_scale = over (layer_scale l) (upd_scale u),
     layer_width = over (layer_width l) (upd_width u),
     layer_height = over (layer_height l) (upd_height u),
     layer_src = over (layer_src l) (upd_src u),
     layer_text = over (layer_text l) (upd_text u),
     layer_fontSize = over (layer_fontSize l) (upd_fontSize u),
     layer_color = over (layer_color l) (upd_color u),
     layer_fontFamily = over (layer_fontFamily l) (upd_fontFamily u),
     layer_fontWeight = over (layer_fontWeight l) (upd_fontWeight u) \<rparr>"

section \<open>Layer stack operations of the \<^verbatim>\<open>App\<close> component\<close>

text \<open>
  \<^verbatim>\<open>updateLayer\<close> and \<^verbatim>\<open>handleReorderLayer\<close> replace the \<^verbatim>\<open>layers\<close> array of the
  editor state and leave every other field alone; they are modelled by the array they
  compute from the old one.
\<close>

definition updateLayer :: "layer list \<Rightarrow> string \<Rightarrow> layer_updates \<Rightarrow> layer list" where
  \<comment> \<open>\<^verbatim>\<open>prev.layers.map(l => l.id === id ? { ...l, ...updates } : l)\<close>\<close>
  "updateLayer layers i updates = map (\<lambda>l. if layer_id l = i then spread l updates else l) layers"

text \<open>
  The array that \<^verbatim>\<open>handleReorderLayer\<close> builds can hold \<^verbatim>\<open>undefined\<close> at run time, so
  its elements are \<^typ>\<open>layer option\<close>.  The result is \<^term>\<open>None\<close> when the handler returns at
  its guard, without calling \<^verbatim>\<open>setState\<close> or \<^verbatim>\<open>captureHistorySnapshot\<close>, and
  \<^term>\<open>Some newLayers\<close> when it stores \<open>newLayers\<close> as the new stack.
\<close>

definition handleReorderLayer :: "layer list \<Rightarrow> int \<Rightarrow> int \<Rightarrow> layer option list option" where
  "handleReorderLayer layers fromIndex toIndex =
     (if toIndex < 0 \<or> toIndex \<ge> int (length layers) then None
      else
        let newLayers = map Some layers;
            (newLayers, removed) = js_splice newLayers fromIndex 1 [];
            moved = first_of removed;
            (newLayers, _) = js_splice newLayers toIndex 0 [moved]
        in Some newLayers)"

text \<open>Deleting one position of a list, for stating what a move leaves in place.\<close>

definition remove_at :: "nat \<Rightarrow> 'a list \<Rightarrow> 'a list" where
  "remove_at k xs = take k xs @ drop (Suc k) xs"


section \<open>Canvas 2D context\<close>

text \<open>
  A canvas is modelled by what has been painted on it: the list of drawing calls, each with
  the graphics state it was issued under.  The current transformation matrix is kept as the
  list of \<^verbatim>\<open>translate\<close>/\<^verbatim>\<open>rotate\<close> calls that built it, in call order.  The font is
  kept as the three parts that the source puts into the CSS font string, and the strings
  assigned to \<^verbatim>\<open>font\<close> and \<^verbatim>\<open>fillStyle\<close> are taken to be valid CSS.
\<close>

record html_image =
  img_src :: string
  img_width :: real
  img_height :: real

datatype xform = Translate real real | Rotate real

record font_spec =
  font_weight :: string
  font_px :: real
  font_family :: string

record gstate =
  globalAlpha :: real
  transform :: "xform list"
  font :: font_spec
  fillStyle :: string
  textBaseline :: string

text \<open>A number that a division may have taken out of the finite doubles.\<close>

datatype jsnum = Finite real | NonFinite

definition js_div :: "real \<Rightarrow> real \<Rightarrow> jsnum" where
  \<comment> \<open>\<^verbatim>\<open>a / b\<close>: \<^verbatim>\<open>Infinity\<close>, \<^verbatim>\<open>-Infinity\<close> or \<^verbatim>\<open>NaN\<close> when \<open>b\<close> is zero\<close>
  "js_div a b = (if b = 0 then NonFinite else Finite (a / b))"

definition js_mul :: "real \<Rightarrow> jsnum \<Rightarrow> jsnum" where
  \<comment> \<open>\<^verbatim>\<open>a * s\<close>: a product with \<^verbatim>\<open>Infinity\<close> or \<^verbatim>\<open>NaN\<close> is \<^verbatim>\<open>Infinity\<close> or \<^verbatim>\<open>NaN\<close>\<close>
  "js_mul a s = (case s of Finite r \<Rightarrow> Finite (a * r) | NonFinite \<Rightarrow> NonFinite)"

record crop_rect =
  crop_x :: jsnum
  crop_y :: jsnum
  crop_width :: jsnum
  crop_height :: jsnum

datatype draw_op =
    DrawImage gstate html_image real real real real
  | DrawImageRegion gstate html_image crop_rect crop_rect
  | FillText gstate string real real

record ctx2d =
  cur :: gstate
  saved :: "gstate list"
  painted :: "draw_op list"

definition gstate_init :: gstate where
  "gstate_init = \<lparr> globalAlpha = 1, transform = [],
     font = \<lparr> font_weight = ''normal'', font_px = 10, font_family = ''sans-serif'' \<rparr>,
     fillStyle = ''#000000'', textBaseline = ''alphabetic'' \<rparr>"

definition ctx_init :: ctx2d where
  "ctx_init = \<lparr> cur = gstate_init, saved = [], painted = [] \<rparr>"

definition ctx_save :: "ctx2d \<Rightarrow> ctx2d" where
  "ctx_save c = c\<lparr> saved := cur c # saved c \<rparr>"

definition ctx_restore :: "ctx2d \<Rightarrow> ctx2d" where
  "ctx_restore c = (case saved c of [] \<Rightarrow> c | g # gs \<Rightarrow> c\<lparr> cur := g, saved := gs \<rparr>)"

definition alpha_assign :: "real \<Rightarrow> gstate \<Rightarrow> gstate" where
  \<comment> \<open>assigning \<^verbatim>\<open>globalAlpha\<close>: a value outside \<open>[0, 1]\<close> is ignored\<close>
  "alpha_assign a g = (if 0 \<le> a \<and> a \<le> 1 then g\<lparr> globalAlpha := a \<rparr> else g)"

definition set_globalAlpha :: "real \<Rightarrow> ctx2d \<Rightarrow> ctx2d" where
  "set_globalAlpha a c = c\<lparr> cur := alpha_assign a (cur c) \<rparr>"

definition set_font :: "font_spec \<Rightarrow> ctx2d \<Rightarrow> ctx2d" where
  "set_font f c = c\<lparr> cur := (cur c)\<lparr> font := f \<rparr> \<rparr>"

definition set_fillStyle :: "string \<Rightarrow> ctx2d \<Rightarrow> ctx2d" where
  "set_fillStyle s c = c\<lparr> cur := (cur c)\<lparr> fillStyle := s \<rparr> \<rparr>"

definition set_textBaseline :: "string \<Rightarrow> ctx2d \<Rightarrow> ctx2d" where
  "set_textBaseline s c = c\<lparr> cur := (cur c)\<lparr> textBaseline := s \<rparr> \<rparr>"

definition translate :: "real \<Rightarrow> real \<Rightarrow> ctx2d \<Rightarrow> ctx2d" where
  "translate a b c = c\<lparr> cur := (cur c)\<lparr> transform := transform (cur c) @ [Translate a b] \<rparr> \<rparr>"

definition rotate_ctx :: "real \<Rightarrow> ctx2d \<Rightarrow> ctx2d" where
  "rotate_ctx t c = c\<lparr> cur := (cur c)\<lparr> transform := transform (cur c) @ [Rotate t] \<rparr> \<rparr>"

definition drawImage :: "html_image \<Rightarrow> real \<Rightarrow> real \<Rightarrow> real \<Rightarrow> real \<Rightarrow> ctx2d \<Rightarrow> ctx2d" where
  "drawImage img dx dy dw dh c = c\<lparr> painted := painted c @ [DrawImage (cur c) img dx dy dw dh] \<rparr>"

definition drawImageRegion :: "html_image \<Rightarrow> crop_rect \<Rightarrow> crop_rect \<Rightarrow> ctx2d \<Rightarrow> ctx2d" where
  \<comment> \<open>the nine-argument \<^verbatim>\<open>drawImage\<close>: source rectangle, then destination rectangle\<close>
  "drawImageRegion img sr dr c = c\<lparr> painted := painted c @ [DrawImageRegion (cur c) img sr dr] \<rparr>"

definition fillText :: "string \<Rightarrow> real \<Rightarrow> real \<Rightarrow> ctx2d \<Rightarrow> ctx2d" where
  "fillText s tx ty c = c\<lparr> painted := painted c @ [FillText (cur c) s tx ty] \<rparr>"

text \<open>
  What the transformation list does to a point of user space.  \<^verbatim>\<open>translate\<close> and
  \<^verbatim>\<open>rotate\<close> multiply the current matrix from the right, so the call made last acts on
  the point first.
\<close>

fun apply_xform :: "xform \<Rightarrow> real \<times> real \<Rightarrow> real \<times> real" where
  "apply_xform (Translate a b) (px, py) = (px + a, py + b)"
| "apply_xform (Rotate t) (px, py) = (px * cos t - py * sin t, px * sin t + py * cos t)"

definition to_device :: "xform list \<Rightarrow> real \<times> real \<Rightarrow> real \<times> real" where
  "to_device ts p = foldr apply_xform ts p"

text \<open>The rotation by \<open>t\<close> radians that keeps the point \<open>c\<close> fixed.\<close>

definition rotate_about :: "real \<times> real \<Rightarrow> real \<Rightarrow> real \<times> real \<Rightarrow> real \<times> real" where
  "rotate_about c t p =
     (fst c + (fst p - fst c) * cos t - (snd p - snd c) * sin t,
      snd c + (fst p - fst c) * sin t + (snd p - snd c) * cos t)"

text \<open>
  Where a drawing call puts the point that lies \<open>q\<close> to the right of and below the
  position it was given: the image's or the text's top-left corner is \<open>q = (0, 0)\<close>.  (The
  nine-argument call carries its destination as a rectangle; only its transformation is
  applied here.)
\<close>

fun placement :: "draw_op \<Rightarrow> real \<times> real \<Rightarrow> real \<times> real" where
  "placement (DrawImage g img dx dy dw dh) q = to_device (transform g) (dx + fst q, dy + snd q)"
| "placement (FillText g s tx ty) q = to_device (transform g) (tx + fst q, ty + snd q)"
| "placement (DrawImageRegion g img sr dr) q = to_device (transform g) q"

section \<open>Compositor (utils/imageUtils.ts)\<close>

datatype js_error = CanvasContextUnavailable | ImageLoadError | TypeError

record raster =
  raster_width :: jsnum
  raster_height :: jsnum
  raster_ops :: "draw_op list"

text \<open>
  What the browser contributes: whether a source decodes to an image (\<^verbatim>\<open>onload\<close>) or
  not (\<^verbatim>\<open>onerror\<close>), whether \<^verbatim>\<open>getContext('2d')\<close> gives a context, and the encoder
  behind \<^verbatim>\<open>canvas.toDataURL(type)\<close>.
\<close>

record env =
  decode :: "string \<Rightarrow> html_image option"
  context2d :: bool
  toDataURL :: "raster \<Rightarrow> string \<Rightarrow> string"

definition loadImage :: "env \<Rightarrow> string \<Rightarrow> html_image option" where
  "loadImage e src = decode e src"

definition effective_width :: "layer \<Rightarrow> html_image \<Rightarrow> real" where
  \<comment> \<open>\<^verbatim>\<open>(layer.width || img.width) * layer.scale\<close>\<close>
  "effective_width layer img = num_or (layer_width layer) (img_width img) * layer_scale layer"

definition effective_height :: "layer \<Rightarrow> html_image \<Rightarrow> real" where
  \<comment> \<open>\<^verbatim>\<open>(layer.height || img.height) * layer.scale\<close>\<close>
  "effective_height layer img = num_or (layer_height layer) (img_height img) * layer_scale layer"

text \<open>
  One round of the loop of \<^verbatim>\<open>composeLayers\<close>: the context afterwards and what the
  round wrote with \<^verbatim>\<open>console.error\<close>.  The second branch is guarded by
  \<^verbatim>\<open>layer.type === 'text' && layer.text\<close>.
\<close>

definition draw_layer :: "env \<Rightarrow> ctx2d \<Rightarrow> layer \<Rightarrow> ctx2d \<times> string list" where
  "draw_layer e ctx layer =
     (if \<not> layer_visible layer then (ctx, [])
      else
        let ctx = ctx_save ctx;
            ctx = set_globalAlpha (layer_opacity layer / 100) ctx;
            (ctx, logged) =
              (if layer_type layer = Image \<or> layer_type layer = Drawing then
                 (case truthy (layer_src layer) of
                    None \<Rightarrow> (ctx, [])
                  | Some src \<Rightarrow>
                      (case loadImage e src of
                         None \<Rightarrow> (ctx, [''Failed to load layer '' @ layer_id layer])
                       | Some img \<Rightarrow>
                           let x = layer_x layer;
                               y = layer_y layer;
                               w = effective_width layer img;
                               h = effective_height layer img;
                               ctx = (if layer_rotation layer \<noteq> 0 then
                                        let ctx = translate (x + w / 2) (y + h / 2) ctx;
                                            ctx = rotate_ctx (layer_rotation layer * pi / 180) ctx;
                                            ctx = translate (- (x + w / 2)) (- (y + h / 2)) ctx
                                        in ctx
                                      else ctx)
                           in (drawImage img x y w h ctx, [])))
               else
                 (case (if layer_type layer = Text then truthy (layer_text layer) else None) of
                    None \<Rightarrow> (ctx, [])
                  | Some txt \<Rightarrow>
                      let fontSize = num_or (layer_fontSize layer) 32 * layer_scale layer;
                          ctx = set_font \<lparr> font_weight = str_or (layer_fontWeight layer) ''normal'',
                                           font_px = fontSize,
                                           font_family = str_or (layer_fontFamily layer) ''sans-serif'' \<rparr> ctx;
                          ctx = set_fillStyle (str_or (layer_color layer) ''#ffffff'') ctx;
                          ctx = set_textBaseline ''top'' ctx;
                          x = layer_x layer;
                          y = layer_y layer
                      in (if layer_rotation layer \<noteq> 0 then
                            let ctx = translate x y ctx;
                                ctx = rotate_ctx (layer_rotation layer * pi / 180) ctx
                            in fillText txt 0 0 ctx
                          else fillText txt x y ctx, [])))
        in (ctx_restore ctx, logged))"

fun compose_loop :: "env \<Rightarrow> ctx2d \<Rightarrow> layer list \<Rightarrow> ctx2d \<times> string list" where
  "compose_loop e ctx [] = (ctx, [])"
| "compose_loop e ctx (layer # rest) =
     (let (ctx, logged) = draw_layer e ctx layer;
          (ctx, logged') = compose_loop e ctx rest
      in (ctx, logged @ logged'))"

text \<open>
  The promise of \<^verbatim>\<open>composeLayers\<close>, rejected (\<^term>\<open>Inl\<close>) or resolved with the data
  URL (\<^term>\<open>Inr\<close>), and the lines written to the console meanwhile.
\<close>

definition composeLayers :: "env \<Rightarrow> layer list \<Rightarrow> real \<Rightarrow> real \<Rightarrow> (js_error + string) \<times> string list" where
  "composeLayers e layers width height =
     (if \<not> context2d e then (Inl CanvasContextUnavailable, [])
      else
        let (ctx, logged) = compose_loop e ctx_init layers
        in (Inr (toDataURL e \<lparr> raster_width = Finite width, raster_height = Finite height,
                                raster_ops = painted ctx \<rparr> ''image/png''), logged))"

text \<open>What one layer paints when the loop reaches it, and what it logs.\<close>

definition layer_output :: "env \<Rightarrow> layer \<Rightarrow> draw_op list" where
  "layer_output e layer = painted (fst (draw_layer e ctx_init layer))"

definition layer_log :: "env \<Rightarrow> layer \<Rightarrow> string list" where
  "layer_log e layer = snd (draw_layer e ctx_init layer)"


definition getMimeTypeFromDataUri :: "string \<Rightarrow> string" where
  \<comment> \<open>the first group of \<^verbatim>\<open>/^data:(image\/\w+);base64,/\<close>, or \<^verbatim>\<open>'image/png'\<close>\<close>
  "getMimeTypeFromDataUri dataUri =
     (let word = (\<lambda>c. c \<in> set ''abcdefghijklmnopqrstuvwxyzABCDEFGHIJKLMNOPQRSTUVWXYZ0123456789_'');
          head = ''data:image/'';
          rest = drop (length head) dataUri;
          w = takeWhile word rest;
          tail = '';base64,''
      in if take (length head) dataUri = head \<and> w \<noteq> []
            \<and> take (length tail) (dropWhile word rest) = tail
         then ''image/'' @ w else ''image/png'')"

definition cropImage :: "env \<Rightarrow> string \<Rightarrow> crop_rect \<Rightarrow> js_error + string" where
  "cropImage e dataUri crop =
     (case decode e dataUri of
        None \<Rightarrow> Inl ImageLoadError
      | Some img \<Rightarrow>
          if \<not> context2d e then Inl CanvasContextUnavailable
          else
            let ctx = ctx_init;
                ctx = drawImageRegion img crop
                        \<lparr> crop_x = Finite 0, crop_y = Finite 0,
                          crop_width = crop_width crop, crop_height = crop_height crop \<rparr> ctx
            in Inr (toDataURL e \<lparr> raster_width = crop_width crop, raster_height = crop_height crop,
                                   raster_ops = painted ctx \<rparr> (getMimeTypeFromDataUri dataUri)))"

section \<open>Objects and references\<close>

text \<open>
  The editor state and the history snapshots refer to layer arrays, and the arrays to
  layer objects.  To tell a copy from a second reference to the same array, these objects
  live in a store: an address is a position in the list of all objects allocated so far, and
  allocation appends.  The source never writes to an array or a layer that is already
  reachable from the state, so objects in the store do not change.
\<close>

type_synonym ref = nat

datatype obj = LayerObj layer | ArrayObj "ref list"

type_synonym store = "obj list"

definition alloc :: "store \<Rightarrow> obj \<Rightarrow> store \<times> ref" where
  "alloc h v = (h @ [v], length h)"

definition layer_at :: "store \<Rightarrow> ref \<Rightarrow> layer option" where
  "layer_at h r = (if r < length h then (case h ! r of LayerObj l \<Rightarrow> Some l | _ \<Rightarrow> None) else None)"

definition elems_at :: "store \<Rightarrow> ref \<Rightarrow> ref list" where
  "elems_at h r = (if r < length h then (case h ! r of ArrayObj rs \<Rightarrow> rs | _ \<Rightarrow> []) else [])"

fun layers_at :: "store \<Rightarrow> ref list \<Rightarrow> layer list" where
  "layers_at h [] = []"
| "layers_at h (r # rs) =
     (case layer_at h r of Some l \<Rightarrow> l # layers_at h rs | None \<Rightarrow> layers_at h rs)"

definition stack_at :: "store \<Rightarrow> ref \<Rightarrow> layer list" where
  \<comment> \<open>the layers of the array at \<open>r\<close>, read through the store\<close>
  "stack_at h r = layers_at h (elems_at h r)"

definition is_stack :: "store \<Rightarrow> ref \<Rightarrow> bool" where
  \<comment> \<open>\<open>r\<close> is the address of an array whose elements are addresses of layer objects\<close>
  "is_stack h r =
     (r < length h \<and> (case h ! r of ArrayObj rs \<Rightarrow> list_all (\<lambda>a. layer_at h a \<noteq> None) rs
                                    | _ \<Rightarrow> False))"

fun alloc_layers :: "store \<Rightarrow> layer list \<Rightarrow> store \<times> ref list" where
  "alloc_layers h [] = (h, [])"
| "alloc_layers h (l # ls) =
     (let (h, r) = alloc h (LayerObj l);
          (h, rs) = alloc_layers h ls
      in (h, r # rs))"

definition json_clone :: "store \<Rightarrow> ref \<Rightarrow> store \<times> ref" where
  \<comment> \<open>\<^verbatim>\<open>JSON.parse(JSON.stringify(a))\<close> for a layer array \<open>a\<close>: the text holds the
      field values of every layer, and parsing it allocates a new object for each element
      and a new array.  Strings, booleans, finite numbers and absent optional fields are
      what JSON represents exactly, so the new objects have the old field values.\<close>
  "json_clone h a =
     (let values = stack_at h a;
          (h, rs) = alloc_layers h values
      in alloc h (ArrayObj rs))"

section \<open>Editor state\<close>

datatype AppMode = GENERATE | EDIT | ANALYZE
datatype ProcessingStatus = Idle | Loading | Success | Error
datatype AspectRatio = Ratio_1_1 | Ratio_16_9 | Ratio_9_16 | Ratio_4_3 | Ratio_3_4
datatype Resolution = Low | Medium | High
datatype FilterType = NoFilter | Grayscale | Sepia | Invert

record HistoryItem =
  item_id :: string
  item_image :: string
  item_layers :: ref
  item_label :: string
  item_timestamp :: nat

record AppState =
  mode :: AppMode
  status :: ProcessingStatus
  layers :: ref
  activeLayerId :: "string option"
  uploadedImage :: "string option"
  originalUploadedImage :: "string option"
  resultImage :: "string option"
  analysisResult :: "string option"
  prompt :: string
  errorMessage :: "string option"
  aspectRatio :: AspectRatio
  resolution :: Resolution
  activeFilter :: FilterType
  editHistory :: "HistoryItem list"
  currentHistoryIndex :: int

text \<open>The other \<^verbatim>\<open>useState\<close> cells that the modelled handlers read or write.\<close>

record Adjustments =
  brightness :: real
  contrast :: real
  saturation :: real
  hue :: real
  blur :: real

datatype GradientType = Linear | Radial

record GradientSettings =
  grad_type :: GradientType
  grad_startColor :: string
  grad_endColor :: string
  grad_angle :: real
  grad_opacity :: real

record BrushSettings =
  brush_color :: string
  brush_size :: real
  brush_opacity :: real

record selection =
  sel_x :: real
  sel_y :: real
  sel_width :: real
  sel_height :: real

record dimensions =
  dim_width :: real
  dim_height :: real
  dim_naturalWidth :: real
  dim_naturalHeight :: real

record hooks =
  adjustments :: Adjustments
  gradientSettings :: GradientSettings
  brushSettings :: BrushSettings
  cropSelection :: "selection option"
  showCropTools :: bool
  imageDimensions :: "dimensions option"
  zoom :: real
  pan :: "real \<times> real"

definition DEFAULT_ADJUSTMENTS :: Adjustments where
  "DEFAULT_ADJUSTMENTS = \<lparr> brightness = 100, contrast = 100, saturation = 100, hue = 0, blur = 0 \<rparr>"

definition DEFAULT_GRADIENT :: GradientSettings where
  "DEFAULT_GRADIENT = \<lparr> grad_type = Linear, grad_startColor = ''#3b82f6'',
     grad_endColor = ''#a855f7'', grad_angle = 135, grad_opacity = 50 \<rparr>"

definition DEFAULT_BRUSH :: BrushSettings where
  "DEFAULT_BRUSH = \<lparr> brush_color = ''#ef4444'', brush_size = 10, brush_opacity = 100 \<rparr>"

text \<open>
  The decimal digits of a time stamp, for \<^verbatim>\<open>Date.now().toString()\<close>.  The two readings
  of the clock that a handler takes are arguments \<open>t_id\<close> and \<open>t_stamp\<close>.
\<close>

fun show_nat :: "nat \<Rightarrow> string" where
  "show_nat n = (if n < 10 then [''0123456789'' ! n]
                 else show_nat (n div 10) @ [''0123456789'' ! (n mod 10)])"

declare show_nat.simps [simp del]

section \<open>History timeline\<close>

text \<open>
  A handler reads \<^verbatim>\<open>state\<close> and the other cells as they were at the render that created
  it, and the function it passes to \<^verbatim>\<open>setState\<close> receives the latest state \<^verbatim>\<open>prev\<close>.
  \<^verbatim>\<open>captureHistorySnapshot\<close> runs after the state update of the action it records and
  its own update runs when the composite is ready, so the two are separate arguments
  there.  \<^verbatim>\<open>handleUndo\<close> and \<^verbatim>\<open>handleRedo\<close> are button handlers that run on the
  rendered state with no update pending: \<^verbatim>\<open>prev\<close> is \<^verbatim>\<open>state\<close>.
\<close>

definition captureHistorySnapshot ::
  "env \<Rightarrow> nat \<Rightarrow> nat \<Rightarrow> AppState \<Rightarrow> dimensions option \<Rightarrow> store \<times> AppState \<Rightarrow> store \<times> AppState" where
  "captureHistorySnapshot e t_id t_stamp state dims = (\<lambda>(h, prev).
     if truthy (uploadedImage state) = None then (h, prev)
     else
       case fst (composeLayers e (stack_at h (layers state))
                   (num_or (map_option dim_naturalWidth dims) 800)
                   (num_or (map_option dim_naturalHeight dims) 800)) of
         Inl _ \<Rightarrow> (h, prev)
       | Inr composite \<Rightarrow>
           let newHistory = js_slice (editHistory prev) 0 (currentHistoryIndex prev + 1);
               (h, copy) = json_clone h (layers prev);
               newItem = \<lparr> item_id = show_nat t_id, item_image = composite, item_layers = copy,
                           item_label = ''Action'', item_timestamp = t_stamp \<rparr>;
               newHistory = newHistory @ [newItem]
           in (h, prev\<lparr> editHistory := newHistory,
                        currentHistoryIndex := int (length newHistory) - 1 \<rparr>))"

definition handleUndo :: "store \<times> AppState \<Rightarrow> js_error + store \<times> AppState" where
  "handleUndo = (\<lambda>(h, state).
     if currentHistoryIndex state > 0 then
       let newIndex = currentHistoryIndex state - 1 in
       case js_index (editHistory state) newIndex of
         None \<Rightarrow> Inl TypeError
       | Some prevItem \<Rightarrow>
           let (h, copy) = json_clone h (item_layers prevItem)
           in Inr (h, state\<lparr> currentHistoryIndex := newIndex, layers := copy, resultImage := None \<rparr>)
     else Inr (h, state))"

definition handleRedo :: "store \<times> AppState \<Rightarrow> js_error + store \<times> AppState" where
  "handleRedo = (\<lambda>(h, state).
     if currentHistoryIndex state < int (length (editHistory state)) - 1 then
       let newIndex = currentHistoryIndex state + 1 in
       case js_index (editHistory state) newIndex of
         None \<Rightarrow> Inl TypeError
       | Some nextItem \<Rightarrow>
           let (h, copy) = json_clone h (item_layers nextItem)
           in Inr (h, state\<lparr> currentHistoryIndex := newIndex, layers := copy, resultImage := None \<rparr>)
     else Inr (h, state))"

definition handleImageUpload ::
  "nat \<Rightarrow> nat \<Rightarrow> string \<Rightarrow> store \<times> AppState \<times> hooks \<Rightarrow> store \<times> AppState \<times> hooks" where
  "handleImageUpload t_id t_stamp dataUri = (\<lambda>(h, prev, cells).
     let baseLayer = \<lparr> layer_id = ''layer-base'', layer_type = Image, layer_name = ''Background'',
                         layer_visible = True, layer_locked = True, layer_opacity = 100,
                         layer_x = 0, layer_y = 0, layer_rotation = 0, layer_scale = 1,
                         layer_width = None, layer_height = None, layer_src = Some dataUri,
                         layer_text = None, layer_fontSize = None, layer_color = None,
                         layer_fontFamily = None, layer_fontWeight = None \<rparr>;
         (h, base) = alloc h (LayerObj baseLayer);
         (h, historyLayers) = alloc h (ArrayObj [base]);
         initialHistory = \<lparr> item_id = show_nat t_id, item_image = dataUri,
                              item_layers = historyLayers, item_label = ''Original Upload'',
                              item_timestamp = t_stamp \<rparr>;
         (h, stateLayers) = alloc h (ArrayObj [base])
     in (h,
         prev\<lparr> uploadedImage := Some dataUri, originalUploadedImage := Some dataUri,
               activeFilter := NoFilter, resultImage := None, analysisResult := None,
               layers := stateLayers, activeLayerId := Some (layer_id baseLayer),
               editHistory := [initialHistory], currentHistoryIndex := 0,
               errorMessage := None \<rparr>,
         cells\<lparr> adjustments := DEFAULT_ADJUSTMENTS, gradientSettings := DEFAULT_GRADIENT,
                brushSettings := DEFAULT_BRUSH, cropSelection := None, showCropTools := False,
                zoom := 1, pan := (0, 0) \<rparr>))"

section \<open>Crop\<close>

definition finalCrop :: "selection \<Rightarrow> dimensions \<Rightarrow> crop_rect" where
  "finalCrop sel dims =
     (let displayedWidth = dim_width dims;
          displayedHeight = dim_height dims;
          naturalWidth = dim_naturalWidth dims;
          naturalHeight = dim_naturalHeight dims;
          scaleX = js_div naturalWidth displayedWidth;
          scaleY = js_div naturalHeight displayedHeight
      in \<lparr> crop_x = js_mul (sel_x sel) scaleX,
           crop_y = js_mul (sel_y sel) scaleY,
           crop_width = js_mul (sel_width sel) scaleX,
           crop_height = js_mul (sel_height sel) scaleY \<rparr>)"

text \<open>
  \<^verbatim>\<open>applyCurrentCrop\<close> reads the selection, the uploaded image and the dimensions of
  the render it was created in, and its state updates run after the crop has been
  awaited, on the latest state.
\<close>

definition applyCurrentCrop ::
  "env \<Rightarrow> nat \<Rightarrow> nat \<Rightarrow> AppState \<Rightarrow> hooks \<Rightarrow> store \<times> AppState \<times> hooks \<Rightarrow> store \<times> AppState \<times> hooks" where
  "applyCurrentCrop e t_id t_stamp state rendered = (\<lambda>(h, prev, cells).
     case (cropSelection rendered, truthy (uploadedImage state), imageDimensions rendered) of
       (Some sel, Some uploaded, Some dims) \<Rightarrow>
         (case cropImage e uploaded (finalCrop sel dims) of
            Inr cropped \<Rightarrow> handleImageUpload t_id t_stamp cropped (h, prev, cells)
          | Inl _ \<Rightarrow> (h, prev\<lparr> errorMessage := Some ''Failed to crop image'' \<rparr>, cells))
     | _ \<Rightarrow> (h, prev, cells))"

section \<open>Notions used to state the properties\<close>

definition insert_at :: "nat \<Rightarrow> 'a \<Rightarrow> 'a list \<Rightarrow> 'a list" where
  "insert_at k v xs = take k xs @ [v] @ drop k xs"

definition allocated :: "store \<Rightarrow> ref \<Rightarrow> bool" where
  "allocated h r = (r < length h)"

text \<open>
  In the store \<open>h'\<close>, the array at \<open>c\<close> is a deep copy of what the array at \<open>a\<close> held in the
  earlier store \<open>h\<close>: it has the same layers, field for field, and neither the array nor any
  of its layer objects existed in \<open>h\<close>.
\<close>

definition fresh_copy_of :: "store \<Rightarrow> store \<Rightarrow> ref \<Rightarrow> ref \<Rightarrow> bool" where
  "fresh_copy_of h h' c a =
     (stack_at h' c = stack_at h a \<and> is_stack h' c
      \<and> \<not> allocated h c \<and> list_all (\<lambda>r. \<not> allocated h r) (elems_at h' c))"

subsection \<open>Example layers\<close>

text \<open>
  The layers that \<^verbatim>\<open>handleImageUpload\<close>, \<^verbatim>\<open>handleAddImageLayer\<close> and
  \<^verbatim>\<open>handleAddText\<close> create.
\<close>

definition example_base :: layer where
  "example_base = \<lparr> layer_id = ''layer-base'', layer_type = Image, layer_name = ''Background'',
     layer_visible = True, layer_locked = True, layer_opacity = 100,
     layer_x = 0, layer_y = 0, layer_rotation = 0, layer_scale = 1,
     layer_width = None, layer_height = None, layer_src = Some ''data:image/png;base64,AAAA'',
     layer_text = None, layer_fontSize = None, layer_color = None,
     layer_fontFamily = None, layer_fontWeight = None \<rparr>"

definition example_photo :: layer where
  "example_photo = \<lparr> layer_id = ''layer-1700000000000'', layer_type = Image, layer_name = ''Image 2'',
     layer_visible = True, layer_locked = False, layer_opacity = 100,
     layer_x = 50, layer_y = 50, layer_rotation = 0, layer_scale = 1 / 2,
     layer_width = Some 300, layer_height = Some 300, layer_src = Some ''data:image/png;base64,BBBB'',
     layer_text = None, layer_fontSize = None, layer_color = None,
     layer_fontFamily = None, layer_fontWeight = None \<rparr>"

definition example_text :: layer where
  "example_text = \<lparr> layer_id = ''text-1700000000001'', layer_type = Text, layer_name = ''Text Layer'',
     layer_visible = True, layer_locked = False, layer_opacity = 100,
     layer_x = 50, layer_y = 50, layer_rotation = 0, layer_scale = 1,
     layer_width = None, layer_height = None, layer_src = None,
     layer_text = Some ''Double click to edit'', layer_fontSize = Some 32, layer_color = Some ''#ffffff'',
     layer_fontFamily = Some ''Inter'', layer_fontWeight = Some ''bold'' \<rparr>"

definition example_broken :: layer where
  "example_broken = example_photo\<lparr> layer_id := ''layer-1700000000002'',
     layer_src := Some ''data:image/png;base64,truncated'' \<rparr>"

definition example_blank_text :: layer where
  "example_blank_text = example_text\<lparr> layer_id := ''text-1700000000003'', layer_text := Some '''' \<rparr>"

definition example_no_src :: layer where
  "example_no_src = example_photo\<lparr> layer_id := ''draw-1700000000004'', layer_type := Drawing,
     layer_src := None \<rparr>"

text \<open>
  A browser in which the two data URLs of the example layers decode, every other source
  fails to load, and a 2D context is available.
\<close>

definition example_env :: env where
  "example_env = \<lparr>
     decode = (\<lambda>s. if s = ''data:image/png;base64,AAAA''
                    then Some \<lparr> img_src = s, img_width = 800, img_height = 600 \<rparr>
                    else if s = ''data:image/png;base64,BBBB''
                    then Some \<lparr> img_src = s, img_width = 100, img_height = 100 \<rparr>
                    else None),
     context2d = True,
     toDataURL = (\<lambda>r t. ''data:'' @ t @ '';base64,'' @ replicate (length (raster_ops r)) CHR ''A'') \<rparr>"

definition example_small :: html_image where
  "example_small = \<lparr> img_src = ''data:image/png;base64,BBBB'', img_width = 100, img_height = 100 \<rparr>"

subsection \<open>The bounding box in the words of the specification\<close>

text \<open>
  ``Effective width/height = explicit width/height if present, else source's natural pixel
  size, each multiplied by scale.''
\<close>

definition spec_box_width :: "layer \<Rightarrow> html_image \<Rightarrow> real" where
  "spec_box_width l img =
     (case layer_width l of Some v \<Rightarrow> v | None \<Rightarrow> img_width img) * layer_scale l"

definition spec_box_height :: "layer \<Rightarrow> html_image \<Rightarrow> real" where
  "spec_box_height l img =
     (case layer_height l of Some v \<Rightarrow> v | None \<Rightarrow> img_height img) * layer_scale l"

text \<open>An image layer with an explicit size of zero, turned by half a circle.\<close>

definition example_zero_size :: layer where
  "example_zero_size = example_photo\<lparr> layer_x := 0, layer_y := 0, layer_scale := 1,
     layer_width := Some 0, layer_height := Some 0, layer_rotation := 180 \<rparr>"

text \<open>The example photo and the example text, each turned by a quarter of a circle.\<close>

definition example_turned_photo :: layer where
  "example_turned_photo = example_photo\<lparr> layer_rotation := 90 \<rparr>"

definition example_turned_text :: layer where
  "example_turned_text = example_text\<lparr> layer_rotation := 90 \<rparr>"

subsection \<open>Notions for the history timeline\<close>

text \<open>
  The references of the state point into the store: the live stack and the stack of every
  snapshot are arrays of layer objects.
\<close>

definition store_ok :: "store \<Rightarrow> AppState \<Rightarrow> bool" where
  "store_ok h st =
     (is_stack h (layers st) \<and> list_all (\<lambda>item. is_stack h (item_layers item)) (editHistory st))"

text \<open>The timeline is not empty and the index is inside it.\<close>

definition timeline_ok :: "AppState \<Rightarrow> bool" where
  "timeline_ok st =
     (editHistory st \<noteq> [] \<and> 0 \<le> currentHistoryIndex st
      \<and> currentHistoryIndex st < int (length (editHistory st)))"

definition undo_then_redo :: "store \<times> AppState \<Rightarrow> js_error + store \<times> AppState" where
  "undo_then_redo w = (case handleUndo w of Inl err \<Rightarrow> Inl err | Inr w' \<Rightarrow> handleRedo w')"

definition live_stack :: "store \<times> AppState \<Rightarrow> layer list" where
  "live_stack w = stack_at (fst w) (layers (snd w))"

definition outcome_stack :: "js_error + store \<times> AppState \<Rightarrow> layer list option" where
  \<comment> \<open>the live stack after a handler, \<^term>\<open>None\<close> when it raised\<close>
  "outcome_stack r = (case r of Inl err \<Rightarrow> None | Inr w \<Rightarrow> Some (live_stack w))"

definition background_layer :: "string \<Rightarrow> layer" where
  \<comment> \<open>the \<^verbatim>\<open>baseLayer\<close> of \<^verbatim>\<open>handleImageUpload\<close> for a data URL\<close>
  "background_layer dataUri = \<lparr> layer_id = ''layer-base'', layer_type = Image,
     layer_name = ''Background'', layer_visible = True, layer_locked = True, layer_opacity = 100,
     layer_x = 0, layer_y = 0, layer_rotation = 0, layer_scale = 1,
     layer_width = None, layer_height = None, layer_src = Some dataUri,
     layer_text = None, layer_fontSize = None, layer_color = None,
     layer_fontFamily = None, layer_fontWeight = None \<rparr>"

subsection \<open>Example editor states\<close>

text \<open>
  The store and the state after these steps: an image is uploaded (objects 0 to 2: the base
  layer, the array of the first snapshot, the live array); a text layer is added (3, 4) and
  \<^verbatim>\<open>captureHistorySnapshot\<close> records it (5 to 7: the copies and the array of the second
  snapshot).  This is \<open>example_state\<close>.  Then the text layer is dragged:
  \<^verbatim>\<open>handleMouseMove\<close> calls \<^verbatim>\<open>updateLayer\<close>, which builds a new layer object and a
  new array (8, 9), and no snapshot is taken.  This is \<open>example_dragged_state\<close>.
\<close>

definition example_dragged_text :: layer where
  "example_dragged_text = example_text\<lparr> layer_x := 120, layer_y := 90 \<rparr>"

definition example_store :: store where
  "example_store =
     [LayerObj example_base, ArrayObj [0], ArrayObj [0],
      LayerObj example_text, ArrayObj [0, 3],
      LayerObj example_base, LayerObj example_text, ArrayObj [5, 6],
      LayerObj example_dragged_text, ArrayObj [0, 8]]"

definition example_state :: AppState where
  "example_state = \<lparr> mode = EDIT, status = Idle, layers = 4,
     activeLayerId = Some ''text-1700000000001'',
     uploadedImage = Some ''data:image/png;base64,AAAA'',
     originalUploadedImage = Some ''data:image/png;base64,AAAA'',
     resultImage = None, analysisResult = None, prompt = '''', errorMessage = None,
     aspectRatio = Ratio_1_1, resolution = High, activeFilter = NoFilter,
     editHistory =
       [\<lparr> item_id = ''1700000000000'', item_image = ''data:image/png;base64,AAAA'',
          item_layers = 1, item_label = ''Original Upload'', item_timestamp = 1700000000000 \<rparr>,
        \<lparr> item_id = ''1700000000002'', item_image = ''data:image/png;base64,AA'',
          item_layers = 7, item_label = ''Action'', item_timestamp = 1700000000002 \<rparr>],
     currentHistoryIndex = 1 \<rparr>"

definition example_dragged_state :: AppState where
  "example_dragged_state = example_state\<lparr> layers := 9 \<rparr>"

definition example_cells :: hooks where
  "example_cells = \<lparr> adjustments = DEFAULT_ADJUSTMENTS, gradientSettings = DEFAULT_GRADIENT,
     brushSettings = DEFAULT_BRUSH,
     cropSelection = Some \<lparr> sel_x = 10, sel_y = 10, sel_width = 50, sel_height = 50 \<rparr>,
     showCropTools = True,
     imageDimensions = Some \<lparr> dim_width = 400, dim_height = 300,
                               dim_naturalWidth = 800, dim_naturalHeight = 600 \<rparr>,
     zoom = 1, pan = (0, 0) \<rparr>"

text \<open>
  The example after \<^verbatim>\<open>handleUndo\<close> (objects 10 and 11 are the copy of the first
  snapshot), and after \<^verbatim>\<open>handleRedo\<close> on that (objects 12 to 14 are the copy of the
  second snapshot).
\<close>

definition example_undone_store :: store where
  "example_undone_store = example_store @ [LayerObj example_base, ArrayObj [10]]"

definition example_undone_state :: AppState where
  "example_undone_state = example_state\<lparr> currentHistoryIndex := 0, layers := 11 \<rparr>"

definition example_redone_store :: store where
  "example_redone_store =
     example_undone_store @ [LayerObj example_base, LayerObj example_text, ArrayObj [12, 13]]"

definition example_redone_state :: AppState where
  "example_redone_state = example_state\<lparr> layers := 14 \<rparr>"

text \<open>What the example browser returns for a canvas with one drawing call, as PNG.\<close>

definition example_cropped :: string where
  "example_cropped = ''data:image/png;base64,A''"
section \<open>Properties of the layer stack operations\<close>

subsection \<open>Splicing\<close>

lemma js_splice_remove_one:
  "k < length xs \<Longrightarrow> js_splice xs (int k) (Suc 0) [] = (remove_at k xs, [xs ! k])"
  by (simp add: js_splice_def rel_index_def Let_def remove_at_def take_Suc_conv_app_nth
      flip: Cons_nth_drop_Suc)

lemma js_splice_remove_none:
  "int (length xs) \<le> i \<Longrightarrow> js_splice xs i (Suc 0) [] = (xs, [])"
  by (simp add: js_splice_def rel_index_def Let_def)

lemma js_splice_insert:
  "k \<le> length xs \<Longrightarrow> js_splice xs (int k) 0 ys = (take k xs @ ys @ drop k xs, [])"
  by (simp add: js_splice_def rel_index_def Let_def)

lemma js_splice_negative:
  "i < 0 \<Longrightarrow> js_splice xs i d ys = js_splice xs (int (nat (max (int (length xs) + i) 0))) d ys"
  by (simp add: js_splice_def rel_index_def Let_def)

lemma js_splice_one:
  "js_splice xs i (Suc 0) [] =
     (if rel_index (length xs) i < length xs
      then (remove_at (rel_index (length xs) i) xs, [xs ! rel_index (length xs) i])
      else (xs, []))"
proof -
  let ?s = "rel_index (length xs) i"
  have le: "?s \<le> length xs" by (auto simp: rel_index_def)
  show ?thesis
  proof (cases "?s < length xs")
    case True
    then have "take (Suc 0) (drop ?s xs) = [xs ! ?s]"
      by (simp add: take_Suc_conv_app_nth flip: Cons_nth_drop_Suc)
    moreover have "min (Suc 0) (length xs - ?s) = Suc 0" using True by simp
    ultimately show ?thesis
      using True by (simp add: js_splice_def Let_def remove_at_def)
  next
    case False
    with le have "?s = length xs" by simp
    then show ?thesis by (simp add: js_splice_def Let_def)
  qed
qed

lemma length_remove_at: "k < length xs \<Longrightarrow> length (remove_at k xs) = length xs - 1"
  by (simp add: remove_at_def)

lemma remove_at_map: "remove_at k (map f xs) = map f (remove_at k xs)"
  by (simp add: remove_at_def take_map drop_map)

lemma remove_at_insert_at: "k \<le> length xs \<Longrightarrow> remove_at k (insert_at k v xs) = xs"
  by (simp add: remove_at_def insert_at_def)

lemma nth_insert_at: "k \<le> length xs \<Longrightarrow> insert_at k v xs ! k = v"
  by (simp add: insert_at_def nth_append)

lemma length_insert_at: "length (insert_at k v xs) = Suc (length xs)"
  by (simp add: insert_at_def)

lemma insert_at_map: "insert_at k (f v) (map f xs) = map f (insert_at k v xs)"
  by (simp add: insert_at_def take_map drop_map)

subsection \<open>Reordering\<close>

lemma reorder_in_range:
  assumes "k < length stack" "t < length stack"
  shows "handleReorderLayer stack (int k) (int t) =
           Some (map Some (insert_at t (stack ! k) (remove_at k stack)))"
proof -
  have a: "js_splice (map Some stack) (int k) (Suc 0) [] = (map Some (remove_at k stack), [Some (stack ! k)])"
    using assms by (simp add: js_splice_remove_one remove_at_map)
  have "t \<le> length (map Some (remove_at k stack))"
    using assms by (simp add: length_remove_at)
  then have b: "js_splice (map Some (remove_at k stack)) (int t) 0 [Some (stack ! k)]
              = (map Some (insert_at t (stack ! k) (remove_at k stack)), [])"
    by (simp add: js_splice_insert insert_at_def take_map drop_map)
  show ?thesis
    using assms by (simp add: handleReorderLayer_def a b first_of_def)
qed

lemma reorder_from_beyond:
  assumes "t < length stack" "int (length stack) \<le> fromIndex"
  shows "handleReorderLayer stack fromIndex (int t) = Some (insert_at t None (map Some stack))"
proof -
  have a: "js_splice (map Some stack) fromIndex (Suc 0) [] = (map Some stack, [])"
    using assms by (simp add: js_splice_remove_none)
  have b: "js_splice (map Some stack) (int t) 0 [None] = (insert_at t None (map Some stack), [])"
    using assms by (simp add: js_splice_insert insert_at_def)
  show ?thesis
    using assms by (simp add: handleReorderLayer_def a b first_of_def)
qed

lemma reorder_from_negative:
  assumes "fromIndex < 0"
  shows "handleReorderLayer stack fromIndex toIndex =
         handleReorderLayer stack (int (nat (max (int (length stack) + fromIndex) 0))) toIndex"
  using js_splice_negative[OF assms, of "map Some stack" "Suc 0" "[]"]
  by (simp add: handleReorderLayer_def)

lemma reorder_any_source:
  assumes "t < length stack"
  shows "handleReorderLayer stack fromIndex (int t) =
           Some (insert_at t
                   (if rel_index (length stack) fromIndex < length stack
                    then Some (stack ! rel_index (length stack) fromIndex) else None)
                   (map Some (if rel_index (length stack) fromIndex < length stack
                              then remove_at (rel_index (length stack) fromIndex) stack
                              else stack)))"
proof -
  let ?s = "rel_index (length stack) fromIndex"
  show ?thesis
  proof (cases "?s < length stack")
    case True
    have a: "js_splice (map Some stack) fromIndex (Suc 0) []
               = (map Some (remove_at ?s stack), [Some (stack ! ?s)])"
      using True by (simp add: js_splice_one remove_at_map)
    have "t \<le> length (map Some (remove_at ?s stack))"
      using assms True by (simp add: length_remove_at)
    then have b: "js_splice (map Some (remove_at ?s stack)) (int t) 0 [Some (stack ! ?s)]
                = (insert_at t (Some (stack ! ?s)) (map Some (remove_at ?s stack)), [])"
      by (simp add: js_splice_insert insert_at_def)
    show ?thesis
      using assms True by (simp add: handleReorderLayer_def a b first_of_def)
  next
    case False
    have a: "js_splice (map Some stack) fromIndex (Suc 0) [] = (map Some stack, [])"
      using False by (simp add: js_splice_one)
    have b: "js_splice (map Some stack) (int t) 0 [None] = (insert_at t None (map Some stack), [])"
      using assms by (simp add: js_splice_insert insert_at_def)
    show ?thesis
      using assms False by (simp add: handleReorderLayer_def a b first_of_def)
  qed
qed

text \<open>
  Claim C7.  \<^verbatim>\<open>handleReorderLayer\<close> returns at its guard, changing nothing and raising
  nothing, whenever \<open>toIndex\<close> is outside \<open>[0, length - 1]\<close>.  Otherwise it stores the array
  that the two splices give: what the first splice removed at \<open>fromIndex\<close> is at position
  \<open>toIndex\<close>, and without that position the array is the old stack without the removed
  element, so all other layers keep their relative order.  For a source index that names an
  element of the stack, this is the stack in which that layer has been taken out and put
  back at \<open>toIndex\<close>, of the old length.
\<close>

theorem reorder_moves_layer:
  "(toIndex < 0 \<or> int (length stack) \<le> toIndex \<longrightarrow>
      handleReorderLayer stack fromIndex toIndex = None)
   \<and> (0 \<le> toIndex \<and> toIndex < int (length stack) \<longrightarrow>
        (let s = rel_index (length stack) fromIndex;
             moved = (if s < length stack then Some (stack ! s) else None);
             others = (if s < length stack then remove_at s stack else stack);
             new = insert_at (nat toIndex) moved (map Some others)
         in handleReorderLayer stack fromIndex toIndex = Some new
            \<and> new ! nat toIndex = moved
            \<and> remove_at (nat toIndex) new = map Some others)
      \<and> (0 \<le> fromIndex \<and> fromIndex < int (length stack) \<longrightarrow>
          (let new = insert_at (nat toIndex) (stack ! nat fromIndex) (remove_at (nat fromIndex) stack)
           in handleReorderLayer stack fromIndex toIndex = Some (map Some new)
              \<and> length new = length stack
              \<and> new ! nat toIndex = stack ! nat fromIndex
              \<and> remove_at (nat toIndex) new = remove_at (nat fromIndex) stack)))"
proof (intro conjI impI)
  assume "toIndex < 0 \<or> int (length stack) \<le> toIndex"
  then show "handleReorderLayer stack fromIndex toIndex = None"
    by (auto simp: handleReorderLayer_def)
next
  assume h: "0 \<le> toIndex \<and> toIndex < int (length stack)"
  let ?t = "nat toIndex" and ?s = "rel_index (length stack) fromIndex"
  have t: "?t < length stack" and ti: "int ?t = toIndex" using h by auto
  let ?others = "if ?s < length stack then remove_at ?s stack else stack"
  have tl: "?t \<le> length (map Some ?others)" using t by (auto simp: length_remove_at)
  have "handleReorderLayer stack fromIndex (int ?t) =
          Some (insert_at ?t (if ?s < length stack then Some (stack ! ?s) else None)
                  (map Some ?others))"
    by (rule reorder_any_source[OF t])
  then show "let s = rel_index (length stack) fromIndex;
             moved = (if s < length stack then Some (stack ! s) else None);
             others = (if s < length stack then remove_at s stack else stack);
             new = insert_at (nat toIndex) moved (map Some others)
         in handleReorderLayer stack fromIndex toIndex = Some new
            \<and> new ! nat toIndex = moved
            \<and> remove_at (nat toIndex) new = map Some others"
    unfolding Let_def ti using nth_insert_at[OF tl] remove_at_insert_at[OF tl] by simp
next
  assume h: "0 \<le> toIndex \<and> toIndex < int (length stack)"
  assume f: "0 \<le> fromIndex \<and> fromIndex < int (length stack)"
  let ?k = "nat fromIndex" and ?t = "nat toIndex"
  have k: "?k < length stack" and t: "?t < length stack" using h f by auto
  have tl: "?t \<le> length (remove_at ?k stack)" using k t by (simp add: length_remove_at)
  have "handleReorderLayer stack (int ?k) (int ?t)
          = Some (map Some (insert_at ?t (stack ! ?k) (remove_at ?k stack)))"
    by (rule reorder_in_range[OF k t])
  moreover have "int ?k = fromIndex" "int ?t = toIndex" using h f by auto
  ultimately show "let new = insert_at ?t (stack ! ?k) (remove_at ?k stack)
       in handleReorderLayer stack fromIndex toIndex = Some (map Some new)
          \<and> length new = length stack
          \<and> new ! ?t = stack ! ?k
          \<and> remove_at ?t new = remove_at ?k stack"
    using k tl by (simp add: Let_def length_insert_at length_remove_at nth_insert_at remove_at_insert_at)
qed

theorem reorder_moves_layer_witness:
  "handleReorderLayer [example_base, example_photo, example_text] 1 3 = None
   \<and> handleReorderLayer [example_base, example_photo, example_text] 1 2
       = Some [Some example_base, Some example_text, Some example_photo]"
  using reorder_moves_layer[where stack = "[example_base, example_photo, example_text]"
          and fromIndex = 1 and toIndex = 3]
        reorder_moves_layer[where stack = "[example_base, example_photo, example_text]"
          and fromIndex = 1 and toIndex = 2]
  by (simp add: insert_at_def remove_at_def rel_index_def Let_def)

subsection \<open>Updating one layer\<close>

text \<open>
  Claim C8.  \<^verbatim>\<open>updateLayer\<close> returns a stack of the same length in the same order: at
  every position, a layer whose id is the given one is replaced by the spread of the update
  over it, and a layer with another id is the layer that was there.  When no layer has the
  given id, the stack is returned as it was.
\<close>

theorem updateLayer_frame:
  "length (updateLayer stack i u) = length stack
   \<and> (\<forall>k<length stack. updateLayer stack i u ! k =
         (if layer_id (stack ! k) = i then spread (stack ! k) u else stack ! k))
   \<and> (i \<notin> layer_id ` set stack \<longrightarrow> updateLayer stack i u = stack)"
proof (intro conjI allI impI)
  show "length (updateLayer stack i u) = length stack" by (simp add: updateLayer_def)
next
  fix k assume "k < length stack"
  then show "updateLayer stack i u ! k =
         (if layer_id (stack ! k) = i then spread (stack ! k) u else stack ! k)"
    by (simp add: updateLayer_def)
next
  assume "i \<notin> layer_id ` set stack"
  then have "\<forall>l\<in>set stack. layer_id l \<noteq> i" by auto
  then show "updateLayer stack i u = stack"
    unfolding updateLayer_def by (induction stack) auto
qed

theorem updateLayer_frame_witness:
  "length (updateLayer [example_base, example_text] ''text-1700000000001'' (no_updates\<lparr> upd_x := Some 80 \<rparr>)) = 2
   \<and> updateLayer [example_base, example_text] ''text-1700000000001'' (no_updates\<lparr> upd_x := Some 80 \<rparr>) ! 0
       = example_base
   \<and> updateLayer [example_base, example_text] ''text-1700000000001'' (no_updates\<lparr> upd_x := Some 80 \<rparr>) ! 1
       = example_text\<lparr> layer_x := 80 \<rparr>
   \<and> updateLayer [example_base, example_text] ''layer-7'' (no_updates\<lparr> upd_x := Some 80 \<rparr>)
       = [example_base, example_text]"
proof -
  let ?u = "no_updates\<lparr> upd_x := Some 80 \<rparr>"
  note a = updateLayer_frame[where stack = "[example_base, example_text]"
             and i = "''text-1700000000001''" and u = ?u]
  note b = updateLayer_frame[where stack = "[example_base, example_text]"
             and i = "''layer-7''" and u = ?u]
  have k0: "(0::nat) < length [example_base, example_text]"
    and k1: "(1::nat) < length [example_base, example_text]" by simp_all
  have "updateLayer [example_base, example_text] ''text-1700000000001'' ?u ! 0 = example_base"
    using a[THEN conjunct2, THEN conjunct1, rule_format, OF k0]
    by (simp add: example_base_def)
  moreover
  have "updateLayer [example_base, example_text] ''text-1700000000001'' ?u ! 1
          = example_text\<lparr> layer_x := 80 \<rparr>"
    using a[THEN conjunct2, THEN conjunct1, rule_format, OF k1]
    by (simp add: example_text_def spread_def over_def no_updates_def)
  moreover
  have "''layer-7'' \<notin> layer_id ` set [example_base, example_text]"
    by (simp add: example_base_def example_text_def)
  then have "updateLayer [example_base, example_text] ''layer-7'' ?u = [example_base, example_text]"
    using b by blast
  ultimately show ?thesis
    using a by simp
qed

subsection \<open>Reordering from a source index outside the stack\<close>

text \<open>
  Claim C9.  Only the destination index is checked.  For a destination inside the stack,
  a source index at or beyond the length makes the first splice remove nothing, and
  \<^verbatim>\<open>undefined\<close> is inserted at \<open>toIndex\<close>: the stored array is one longer than the stack
  and its entry at \<open>toIndex\<close> is no layer.  A negative source index is taken relative to the
  end of the stack (and not before its start), and the layer found there is moved.
\<close>

theorem reorder_unchecked_source:
  "0 \<le> toIndex \<and> toIndex < int (length stack) \<longrightarrow>
     (int (length stack) \<le> fromIndex \<longrightarrow>
        (let new = insert_at (nat toIndex) None (map Some stack)
         in handleReorderLayer stack fromIndex toIndex = Some new
            \<and> length new = Suc (length stack) \<and> new ! nat toIndex = None))
   \<and> (fromIndex < 0 \<longrightarrow>
        (let k = nat (max (int (length stack) + fromIndex) 0)
         in handleReorderLayer stack fromIndex toIndex =
              Some (map Some (insert_at (nat toIndex) (stack ! k) (remove_at k stack)))))"
proof (intro conjI impI)
  assume t: "0 \<le> toIndex \<and> toIndex < int (length stack)"
  assume f: "int (length stack) \<le> fromIndex"
  have tl: "nat toIndex < length stack" using t by auto
  have "handleReorderLayer stack fromIndex (int (nat toIndex)) = Some (insert_at (nat toIndex) None (map Some stack))"
    by (rule reorder_from_beyond[OF tl f])
  then show "let new = insert_at (nat toIndex) None (map Some stack)
         in handleReorderLayer stack fromIndex toIndex = Some new
            \<and> length new = Suc (length stack) \<and> new ! nat toIndex = None"
    using t tl by (simp add: Let_def length_insert_at nth_insert_at)
next
  assume t: "0 \<le> toIndex \<and> toIndex < int (length stack)"
  assume f: "fromIndex < 0"
  let ?k = "nat (max (int (length stack) + fromIndex) 0)"
  have tl: "nat toIndex < length stack" using t by auto
  have kl: "?k < length stack" using f tl by auto
  have "handleReorderLayer stack fromIndex toIndex = handleReorderLayer stack (int ?k) (int (nat toIndex))"
    using reorder_from_negative[OF f, of stack toIndex] t by simp
  also have "\<dots> = Some (map Some (insert_at (nat toIndex) (stack ! ?k) (remove_at ?k stack)))"
    by (rule reorder_in_range[OF kl tl])
  finally show "let k = ?k in handleReorderLayer stack fromIndex toIndex =
              Some (map Some (insert_at (nat toIndex) (stack ! k) (remove_at k stack)))"
    by (simp add: Let_def)
qed

theorem reorder_unchecked_source_witness:
  "handleReorderLayer [example_base, example_text] 2 1 = Some [Some example_base, None, Some example_text]
   \<and> handleReorderLayer [example_base, example_photo, example_text] (- 1) 0
       = Some [Some example_text, Some example_base, Some example_photo]"
  using reorder_unchecked_source[where stack = "[example_base, example_text]"
          and fromIndex = 2 and toIndex = 1]
        reorder_unchecked_source[where stack = "[example_base, example_photo, example_text]"
          and fromIndex = "- 1" and toIndex = 0]
  by (simp add: insert_at_def remove_at_def Let_def)
section \<open>Properties of the compositor\<close>

subsection \<open>The loop paints layer by layer\<close>

lemmas ctx_calls = ctx_save_def ctx_restore_def set_globalAlpha_def set_font_def set_fillStyle_def
  set_textBaseline_def translate_def rotate_ctx_def drawImage_def fillText_def

lemmas ctx_ops = ctx_calls alpha_assign_def

lemma draw_layer_decomp:
  assumes "cur ctx = gstate_init"
  shows "draw_layer e ctx l = (ctx\<lparr> painted := painted ctx @ layer_output e l \<rparr>, layer_log e l)"
  using assms
  by (cases ctx)
     (simp add: draw_layer_def layer_output_def layer_log_def ctx_init_def ctx_calls Let_def
           split: option.splits)

lemma compose_loop_decomp:
  "cur ctx = gstate_init \<Longrightarrow>
   compose_loop e ctx ls = (ctx\<lparr> painted := painted ctx @ concat (map (layer_output e) ls) \<rparr>,
                            concat (map (layer_log e) ls))"
proof (induction ls arbitrary: ctx)
  case Nil
  then show ?case by simp
next
  case (Cons l ls)
  have "cur (ctx\<lparr> painted := painted ctx @ layer_output e l \<rparr>) = gstate_init"
    using Cons.prems by simp
  from Cons.IH[OF this] show ?case
    by (simp add: draw_layer_decomp[OF Cons.prems])
qed

lemma composeLayers_eq:
  "composeLayers e ls w h =
     (if \<not> context2d e then (Inl CanvasContextUnavailable, [])
      else (Inr (toDataURL e \<lparr> raster_width = Finite w, raster_height = Finite h,
                                raster_ops = concat (map (layer_output e) ls) \<rparr> ''image/png''),
            concat (map (layer_log e) ls)))"
  by (simp add: composeLayers_def compose_loop_decomp ctx_init_def)

subsection \<open>Transformations\<close>

lemma to_device_pivot:
  "to_device [Translate cx cy, Rotate t, Translate (- cx) (- cy)] p = rotate_about (cx, cy) t p"
  by (cases p) (simp add: to_device_def rotate_about_def algebra_simps)

lemma to_device_anchor:
  "to_device [Translate a b, Rotate t] (fst q, snd q) = rotate_about (a, b) t (a + fst q, b + snd q)"
  by (cases q) (simp add: to_device_def rotate_about_def algebra_simps)

subsection \<open>What a single layer paints\<close>

lemma image_layer_output:
  assumes "layer_visible l" "layer_type l = Image \<or> layer_type l = Drawing"
      and "truthy (layer_src l) = Some s" "loadImage e s = Some img"
  shows "layer_output e l =
           [DrawImage ((alpha_assign (layer_opacity l / 100) gstate_init)\<lparr>
                         transform := (if layer_rotation l \<noteq> 0
                            then [Translate (layer_x l + effective_width l img / 2)
                                            (layer_y l + effective_height l img / 2),
                                  Rotate (layer_rotation l * pi / 180),
                                  Translate (- (layer_x l + effective_width l img / 2))
                                            (- (layer_y l + effective_height l img / 2))]
                            else []) \<rparr>)
              img (layer_x l) (layer_y l) (effective_width l img) (effective_height l img)]"
  using assms
  by (auto simp: layer_output_def draw_layer_def ctx_init_def gstate_init_def ctx_ops Let_def)

lemma text_layer_output:
  assumes "layer_visible l" "layer_type l = Text" "truthy (layer_text l) = Some t"
  shows "layer_output e l =
           [FillText ((alpha_assign (layer_opacity l / 100) gstate_init)\<lparr>
                         transform := (if layer_rotation l \<noteq> 0
                            then [Translate (layer_x l) (layer_y l),
                                  Rotate (layer_rotation l * pi / 180)]
                            else []),
                         font := \<lparr> font_weight = str_or (layer_fontWeight l) ''normal'',
                                    font_px = num_or (layer_fontSize l) 32 * layer_scale l,
                                    font_family = str_or (layer_fontFamily l) ''sans-serif'' \<rparr>,
                         fillStyle := str_or (layer_color l) ''#ffffff'',
                         textBaseline := ''top'' \<rparr>)
              t (if layer_rotation l \<noteq> 0 then 0 else layer_x l)
                (if layer_rotation l \<noteq> 0 then 0 else layer_y l)]"
  using assms
  by (auto simp: layer_output_def draw_layer_def ctx_init_def gstate_init_def ctx_ops Let_def)

lemma skipped_layer_output:
  assumes "(layer_type l = Image \<or> layer_type l = Drawing) \<and> truthy (layer_src l) = None
           \<or> layer_type l = Text \<and> truthy (layer_text l) = None"
  shows "layer_output e l = [] \<and> layer_log e l = []"
  using assms
  by (auto simp: layer_output_def layer_log_def draw_layer_def ctx_init_def ctx_ops Let_def)

lemma broken_layer_output:
  assumes "layer_visible l" "layer_type l = Image \<or> layer_type l = Drawing"
      and "truthy (layer_src l) = Some s" "loadImage e s = None"
  shows "layer_output e l = [] \<and> layer_log e l = [''Failed to load layer '' @ layer_id l]"
  using assms
  by (auto simp: layer_output_def layer_log_def draw_layer_def ctx_init_def ctx_ops Let_def)

subsection \<open>A layer whose source does not decode\<close>

text \<open>
  Claim C6.  When the source of a visible image or drawing layer fails to load, that layer
  paints nothing and one line naming it is logged.  The promise of \<^verbatim>\<open>composeLayers\<close> is
  the one that the stack without the layer gives: the failure never rejects the call, and
  when a 2D context is available the call resolves with the raster on which the layers below
  and above have been painted in order; the log is theirs with the line for the broken
  layer in between.
\<close>

theorem broken_layer_is_skipped:
  assumes "layer_visible l" "layer_type l = Image \<or> layer_type l = Drawing"
      and "truthy (layer_src l) = Some s" "loadImage e s = None"
  shows "fst (composeLayers e (lower @ l # upper) w h) = fst (composeLayers e (lower @ upper) w h)
       \<and> (context2d e \<longrightarrow>
            fst (composeLayers e (lower @ l # upper) w h)
              = Inr (toDataURL e \<lparr> raster_width = Finite w, raster_height = Finite h,
                       raster_ops = concat (map (layer_output e) lower) @ concat (map (layer_output e) upper) \<rparr>
                     ''image/png'')
          \<and> snd (composeLayers e (lower @ l # upper) w h)
              = snd (composeLayers e lower w h) @ [''Failed to load layer '' @ layer_id l]
                  @ snd (composeLayers e upper w h))"
  using broken_layer_output[OF assms]
  by (simp add: composeLayers_eq)

theorem broken_layer_is_skipped_witness:
  "layer_visible example_broken
   \<and> loadImage example_env ''data:image/png;base64,truncated'' = None
   \<and> fst (composeLayers example_env [example_base, example_broken, example_text] 800 600)
       = fst (composeLayers example_env [example_base, example_text] 800 600)
   \<and> fst (composeLayers example_env [example_base, example_broken, example_text] 800 600)
       = Inr ''data:image/png;base64,AA''
   \<and> snd (composeLayers example_env [example_base, example_broken, example_text] 800 600)
       = [''Failed to load layer layer-1700000000002'']"
proof -
  have v: "layer_visible example_broken"
    and t: "layer_type example_broken = Image \<or> layer_type example_broken = Drawing"
    and s: "truthy (layer_src example_broken) = Some ''data:image/png;base64,truncated''"
    and d: "loadImage example_env ''data:image/png;base64,truncated'' = None"
    by (simp_all add: example_broken_def example_photo_def truthy_def loadImage_def example_env_def)
  have b: "layer_output example_env example_base
            = [DrawImage (gstate_init\<lparr> globalAlpha := 1 \<rparr>)
                 \<lparr> img_src = ''data:image/png;base64,AAAA'', img_width = 800, img_height = 600 \<rparr>
                 0 0 800 600]"
    and bl: "layer_log example_env example_base = []"
    by (simp_all add: layer_output_def layer_log_def draw_layer_def example_base_def example_env_def
          loadImage_def truthy_def ctx_ops ctx_init_def Let_def effective_width_def
          effective_height_def num_or_def)
  have x: "length (layer_output example_env example_text) = 1"
    and xl: "layer_log example_env example_text = []"
    by (simp_all add: layer_output_def layer_log_def draw_layer_def example_text_def
          truthy_def ctx_ops ctx_init_def Let_def)
  have c: "context2d example_env" by (simp add: example_env_def)
  have u: "\<And>r t. toDataURL example_env r t
             = ''data:'' @ t @ '';base64,'' @ replicate (length (raster_ops r)) CHR ''A''"
    by (simp add: example_env_def)
  have i: "layer_id example_broken = ''layer-1700000000002''"
    by (simp add: example_broken_def)
  show ?thesis
    using broken_layer_is_skipped[OF v t s d, where lower = "[example_base]"
            and upper = "[example_text]" and w = 800 and h = 600] v d c
    by (simp add: composeLayers_eq b bl x xl u i numeral_2_eq_2)
qed

subsection \<open>Layers without content\<close>

text \<open>
  Claim C10.  An image or drawing layer whose \<^verbatim>\<open>src\<close> is absent or empty, and a text
  layer whose \<^verbatim>\<open>text\<close> is absent or empty, paints nothing and logs nothing, whether it
  is visible or not: composing a stack that holds it gives the same promise and the same
  log as composing the stack without it.
\<close>

theorem contentless_layer_is_skipped:
  assumes "(layer_type l = Image \<or> layer_type l = Drawing)
             \<and> (layer_src l = None \<or> layer_src l = Some [])
           \<or> layer_type l = Text \<and> (layer_text l = None \<or> layer_text l = Some [])"
  shows "layer_output e l = [] \<and> layer_log e l = []
       \<and> composeLayers e (lower @ l # upper) w h = composeLayers e (lower @ upper) w h"
proof -
  from assms have "(layer_type l = Image \<or> layer_type l = Drawing) \<and> truthy (layer_src l) = None
           \<or> layer_type l = Text \<and> truthy (layer_text l) = None"
    by (auto simp: truthy_def)
  from skipped_layer_output[OF this] show ?thesis
    by (simp add: composeLayers_eq)
qed

theorem contentless_layer_is_skipped_witness:
  "layer_visible example_blank_text \<and> layer_visible example_no_src
   \<and> composeLayers example_env [example_base, example_blank_text, example_photo] 800 600
       = composeLayers example_env [example_base, example_photo] 800 600
   \<and> composeLayers example_env [example_base, example_no_src, example_photo] 800 600
       = composeLayers example_env [example_base, example_photo] 800 600"
proof -
  have a: "layer_type example_blank_text = Text \<and> layer_text example_blank_text = Some []"
    by (simp add: example_blank_text_def example_text_def)
  have b: "layer_type example_no_src = Drawing \<and> layer_src example_no_src = None"
    by (simp add: example_no_src_def example_photo_def)
  have v: "layer_visible example_blank_text \<and> layer_visible example_no_src"
    by (simp add: example_blank_text_def example_text_def example_no_src_def example_photo_def)
  show ?thesis
    using contentless_layer_is_skipped[where l = example_blank_text and e = example_env
            and lower = "[example_base]" and upper = "[example_photo]" and w = 800 and h = 600]
          contentless_layer_is_skipped[where l = example_no_src and e = example_env
            and lower = "[example_base]" and upper = "[example_photo]" and w = 800 and h = 600]
          a b v
    by simp
qed

subsection \<open>Rotation pivots\<close>

lemma effective_width_cases:
  "(layer_width l = Some v \<and> v \<noteq> 0 \<longrightarrow> effective_width l img = v * layer_scale l)
   \<and> (layer_width l = None \<or> layer_width l = Some 0 \<longrightarrow>
        effective_width l img = img_width img * layer_scale l)"
  by (auto simp: effective_width_def num_or_def)

lemma effective_height_cases:
  "(layer_height l = Some v \<and> v \<noteq> 0 \<longrightarrow> effective_height l img = v * layer_scale l)
   \<and> (layer_height l = None \<or> layer_height l = Some 0 \<longrightarrow>
        effective_height l img = img_height img * layer_scale l)"
  by (auto simp: effective_height_def num_or_def)

text \<open>
  Claim C2 as stated takes the explicit width and height whenever they are present.  The
  source writes \<^verbatim>\<open>layer.width || img.width\<close>, so an explicit size of zero gives way to
  the natural size.  For the example layer with explicit size 0 by 0 over a 100 by 100
  image, turned by 180 degrees at the origin, the drawing call is issued for a 100 by 100
  box and pivots about its centre (50, 50), which takes the top-left corner to (100, 100);
  the pivot computed from the explicit size is (0, 0), which leaves that corner at (0, 0).
\<close>

theorem rotation_pivot_counterexample:
  "layer_visible example_zero_size \<and> layer_type example_zero_size = Image
   \<and> layer_rotation example_zero_size = 180
   \<and> loadImage example_env ''data:image/png;base64,BBBB'' = Some example_small
   \<and> layer_output example_env example_zero_size
       = [DrawImage (gstate_init\<lparr> globalAlpha := 1,
                       transform := [Translate 50 50, Rotate pi, Translate (- 50) (- 50)] \<rparr>)
            example_small 0 0 100 100]
   \<and> placement (hd (layer_output example_env example_zero_size)) (0, 0) = (100, 100)
   \<and> spec_box_width example_zero_size example_small = 0
   \<and> spec_box_height example_zero_size example_small = 0
   \<and> rotate_about (layer_x example_zero_size + spec_box_width example_zero_size example_small / 2,
                    layer_y example_zero_size + spec_box_height example_zero_size example_small / 2)
        (layer_rotation example_zero_size * pi / 180)
        (layer_x example_zero_size, layer_y example_zero_size) = (0, 0)"
proof -
  have o: "layer_output example_env example_zero_size
       = [DrawImage (gstate_init\<lparr> globalAlpha := 1,
                       transform := [Translate 50 50, Rotate pi, Translate (- 50) (- 50)] \<rparr>)
            example_small 0 0 100 100]"
    by (simp add: layer_output_def draw_layer_def example_zero_size_def example_photo_def
          example_env_def example_small_def loadImage_def truthy_def ctx_ops ctx_init_def Let_def
          effective_width_def effective_height_def num_or_def gstate_init_def)
  show ?thesis
    unfolding o
    by (simp add: example_zero_size_def example_photo_def example_env_def example_small_def
          loadImage_def spec_box_width_def spec_box_height_def rotate_about_def to_device_def)
qed

text \<open>
  Claim C2, amended.  The raster that \<^verbatim>\<open>composeLayers\<close> encodes holds, between what the
  layers below and the layers above have painted, what the layer itself paints.  A visible
  image or drawing layer whose source loads is painted by one
  \<^verbatim>\<open>drawImage\<close> call for the box at \<open>(x, y)\<close> of width \<open>w\<close> and height \<open>h\<close>, where \<open>w\<close>
  and \<open>h\<close> are the explicit width and height when present and not zero, and the natural
  size of the decoded image otherwise, each times the scale.  With a rotation other than
  zero every point of the box lands where the rotation about the centre of the box,
  \<open>(x + w/2, y + h/2)\<close>, takes it; with rotation zero it lands where it is.  A visible text
  layer with a text that is not empty is painted by one \<^verbatim>\<open>fillText\<close> call with the
  baseline \<^verbatim>\<open>top\<close>: with a rotation other than zero every point of the text lands where
  the rotation about the anchor \<open>(x, y)\<close> takes it, and with rotation zero the anchor, the
  top-left corner of the text, is at \<open>(x, y)\<close>.
\<close>

theorem compose_rotation_pivots:
  "(context2d e \<longrightarrow>
      fst (composeLayers e (lower @ l # upper) cw ch) =
        Inr (toDataURL e \<lparr> raster_width = Finite cw, raster_height = Finite ch,
               raster_ops = concat (map (layer_output e) lower) @ layer_output e l
                              @ concat (map (layer_output e) upper) \<rparr> ''image/png''))
   \<and> (layer_visible l \<longrightarrow>
     ((layer_type l = Image \<or> layer_type l = Drawing) \<and> truthy (layer_src l) = Some s
        \<and> loadImage e s = Some img \<longrightarrow>
        (let x = layer_x l; y = layer_y l;
             w = effective_width l img; h = effective_height l img
         in (\<exists>g. layer_output e l = [DrawImage g img x y w h])
            \<and> (\<forall>q. placement (hd (layer_output e l)) q =
                  (if layer_rotation l \<noteq> 0
                   then rotate_about (x + w / 2, y + h / 2) (layer_rotation l * pi / 180)
                          (x + fst q, y + snd q)
                   else (x + fst q, y + snd q)))
            \<and> (\<forall>v. layer_width l = Some v \<and> v \<noteq> 0 \<longrightarrow> w = v * layer_scale l)
            \<and> (layer_width l = None \<or> layer_width l = Some 0 \<longrightarrow> w = img_width img * layer_scale l)
            \<and> (\<forall>v. layer_height l = Some v \<and> v \<noteq> 0 \<longrightarrow> h = v * layer_scale l)
            \<and> (layer_height l = None \<or> layer_height l = Some 0 \<longrightarrow> h = img_height img * layer_scale l)))
   \<and> (layer_type l = Text \<and> truthy (layer_text l) = Some t \<longrightarrow>
        (let x = layer_x l; y = layer_y l
         in (\<exists>g tx ty. layer_output e l = [FillText g t tx ty] \<and> textBaseline g = ''top'')
            \<and> (\<forall>q. placement (hd (layer_output e l)) q =
                  (if layer_rotation l \<noteq> 0
                   then rotate_about (x, y) (layer_rotation l * pi / 180) (x + fst q, y + snd q)
                   else (x + fst q, y + snd q))))))"
proof (intro impI conjI)
  assume "context2d e"
  then show "fst (composeLayers e (lower @ l # upper) cw ch) =
        Inr (toDataURL e \<lparr> raster_width = Finite cw, raster_height = Finite ch,
               raster_ops = concat (map (layer_output e) lower) @ layer_output e l
                              @ concat (map (layer_output e) upper) \<rparr> ''image/png'')"
    by (simp add: composeLayers_eq)
next
  assume v: "layer_visible l"
  assume "(layer_type l = Image \<or> layer_type l = Drawing) \<and> truthy (layer_src l) = Some s
        \<and> loadImage e s = Some img"
  then have ty: "layer_type l = Image \<or> layer_type l = Drawing"
    and s: "truthy (layer_src l) = Some s" and i: "loadImage e s = Some img" by auto
  note o = image_layer_output[OF v ty s i]
  show "let x = layer_x l; y = layer_y l;
             w = effective_width l img; h = effective_height l img
         in (\<exists>g. layer_output e l = [DrawImage g img x y w h])
            \<and> (\<forall>q. placement (hd (layer_output e l)) q =
                  (if layer_rotation l \<noteq> 0
                   then rotate_about (x + w / 2, y + h / 2) (layer_rotation l * pi / 180)
                          (x + fst q, y + snd q)
                   else (x + fst q, y + snd q)))
            \<and> (\<forall>v. layer_width l = Some v \<and> v \<noteq> 0 \<longrightarrow> w = v * layer_scale l)
            \<and> (layer_width l = None \<or> layer_width l = Some 0 \<longrightarrow> w = img_width img * layer_scale l)
            \<and> (\<forall>v. layer_height l = Some v \<and> v \<noteq> 0 \<longrightarrow> h = v * layer_scale l)
            \<and> (layer_height l = None \<or> layer_height l = Some 0 \<longrightarrow> h = img_height img * layer_scale l)"
    unfolding Let_def
  proof (intro conjI allI)
    show "\<exists>g. layer_output e l = [DrawImage g img (layer_x l) (layer_y l)
                 (effective_width l img) (effective_height l img)]"
      using o by blast
  next
    fix q
    show "placement (hd (layer_output e l)) q =
            (if layer_rotation l \<noteq> 0
             then rotate_about (layer_x l + effective_width l img / 2,
                                layer_y l + effective_height l img / 2)
                    (layer_rotation l * pi / 180) (layer_x l + fst q, layer_y l + snd q)
             else (layer_x l + fst q, layer_y l + snd q))"
      unfolding o by (cases q) (simp add: to_device_def rotate_about_def algebra_simps)
  qed (use effective_width_cases effective_height_cases in blast)+
next
  assume v: "layer_visible l"
  assume "layer_type l = Text \<and> truthy (layer_text l) = Some t"
  then have ty: "layer_type l = Text" and s: "truthy (layer_text l) = Some t" by auto
  note o = text_layer_output[OF v ty s]
  show "let x = layer_x l; y = layer_y l
         in (\<exists>g tx ty. layer_output e l = [FillText g t tx ty] \<and> textBaseline g = ''top'')
            \<and> (\<forall>q. placement (hd (layer_output e l)) q =
                  (if layer_rotation l \<noteq> 0
                   then rotate_about (x, y) (layer_rotation l * pi / 180) (x + fst q, y + snd q)
                   else (x + fst q, y + snd q)))"
    unfolding Let_def
  proof (intro conjI allI)
    show "\<exists>g tx ty. layer_output e l = [FillText g t tx ty] \<and> textBaseline g = ''top''"
      unfolding o by simp
  next
    fix q
    show "placement (hd (layer_output e l)) q =
            (if layer_rotation l \<noteq> 0
             then rotate_about (layer_x l, layer_y l) (layer_rotation l * pi / 180)
                    (layer_x l + fst q, layer_y l + snd q)
             else (layer_x l + fst q, layer_y l + snd q))"
      unfolding o by (cases q) (simp add: to_device_def rotate_about_def algebra_simps)
  qed
qed

theorem compose_rotation_pivots_witness:
  "layer_visible example_turned_photo \<and> layer_visible example_turned_text
   \<and> context2d example_env
   \<and> fst (composeLayers example_env [example_base, example_turned_photo] 800 600)
       = Inr ''data:image/png;base64,AA''
   \<and> placement (hd (layer_output example_env example_turned_photo)) (0, 0) = (200, 50)
   \<and> placement (hd (layer_output example_env example_turned_text)) (0, 0) = (50, 50)
   \<and> placement (hd (layer_output example_env example_photo)) (0, 0) = (50, 50)
   \<and> placement (hd (layer_output example_env example_text)) (0, 0) = (50, 50)"
proof -
  have i: "loadImage example_env ''data:image/png;base64,BBBB'' = Some example_small"
    by (simp add: loadImage_def example_env_def example_small_def)
  have w: "effective_width example_photo example_small = 150"
          "effective_height example_photo example_small = 150"
          "effective_width example_turned_photo example_small = 150"
          "effective_height example_turned_photo example_small = 150"
    by (simp_all add: effective_width_def effective_height_def num_or_def example_photo_def
          example_turned_photo_def)
  have a: "placement (hd (layer_output example_env example_turned_photo)) (0, 0) = (200, 50)"
    using compose_rotation_pivots[where l = example_turned_photo and e = example_env
            and s = "''data:image/png;base64,BBBB''" and img = example_small, THEN conjunct2] i
    by (simp add: Let_def w example_turned_photo_def example_photo_def truthy_def rotate_about_def)
  have b: "placement (hd (layer_output example_env example_photo)) (0, 0) = (50, 50)"
    using compose_rotation_pivots[where l = example_photo and e = example_env
            and s = "''data:image/png;base64,BBBB''" and img = example_small, THEN conjunct2] i
    by (simp add: Let_def w example_photo_def truthy_def)
  have c: "placement (hd (layer_output example_env example_turned_text)) (0, 0) = (50, 50)"
    using compose_rotation_pivots[where l = example_turned_text and e = example_env
            and t = "''Double click to edit''", THEN conjunct2]
    by (simp add: Let_def example_turned_text_def example_text_def truthy_def rotate_about_def)
  have d: "placement (hd (layer_output example_env example_text)) (0, 0) = (50, 50)"
    using compose_rotation_pivots[where l = example_text and e = example_env
            and t = "''Double click to edit''", THEN conjunct2]
    by (simp add: Let_def example_text_def truthy_def)
  have x: "context2d example_env" by (simp add: example_env_def)
  have u: "\<And>r t. toDataURL example_env r t
             = ''data:'' @ t @ '';base64,'' @ replicate (length (raster_ops r)) CHR ''A''"
    by (simp add: example_env_def)
  have n: "length (layer_output example_env example_base) = 1"
    by (simp add: layer_output_def draw_layer_def example_base_def example_env_def
          loadImage_def truthy_def ctx_ops ctx_init_def Let_def)
  have h1: "layer_visible example_turned_photo"
    and h2: "(layer_type example_turned_photo = Image \<or> layer_type example_turned_photo = Drawing)
             \<and> truthy (layer_src example_turned_photo) = Some ''data:image/png;base64,BBBB''
             \<and> loadImage example_env ''data:image/png;base64,BBBB'' = Some example_small"
    using i by (simp_all add: example_turned_photo_def example_photo_def truthy_def)
  have "\<exists>g. layer_output example_env example_turned_photo
              = [DrawImage g example_small (layer_x example_turned_photo)
                   (layer_y example_turned_photo)
                   (effective_width example_turned_photo example_small)
                   (effective_height example_turned_photo example_small)]"
    using compose_rotation_pivots[where l = example_turned_photo and e = example_env
            and s = "''data:image/png;base64,BBBB''" and img = example_small,
            THEN conjunct2, THEN mp, OF h1, THEN conjunct1, THEN mp, OF h2]
    by (simp add: Let_def)
  then have m: "length (layer_output example_env example_turned_photo) = 1" by auto
  have f: "fst (composeLayers example_env [example_base, example_turned_photo] 800 600)
             = Inr ''data:image/png;base64,AA''"
    using compose_rotation_pivots[where l = example_turned_photo and e = example_env
            and lower = "[example_base]" and upper = "[]" and cw = 800 and ch = 600,
            THEN conjunct1] x
    by (simp add: u n m)
  show ?thesis
    using a b c d x f by (simp add: example_turned_photo_def example_turned_text_def
                            example_photo_def example_text_def)
qed
section \<open>Properties of the store\<close>

lemma layer_at_append: "r < length h \<Longrightarrow> layer_at (h @ ext) r = layer_at h r"
  by (simp add: layer_at_def nth_append)

lemma elems_at_append: "r < length h \<Longrightarrow> elems_at (h @ ext) r = elems_at h r"
  by (simp add: elems_at_def nth_append)

lemma layer_at_Some_less: "layer_at h r \<noteq> None \<Longrightarrow> r < length h"
  by (auto simp: layer_at_def split: if_splits)

lemma is_stack_elems: "is_stack h a \<Longrightarrow> r \<in> set (elems_at h a) \<Longrightarrow> layer_at h r \<noteq> None"
  by (auto simp: is_stack_def elems_at_def list_all_iff split: obj.splits)

lemma layers_at_cong:
  "(\<And>r. r \<in> set rs \<Longrightarrow> layer_at h' r = layer_at h r) \<Longrightarrow> layers_at h' rs = layers_at h rs"
  by (induction rs) (auto split: option.splits)

lemma stack_at_append:
  assumes s: "is_stack h a"
  shows "stack_at (h @ ext) a = stack_at h a"
proof -
  have a: "a < length h" using s by (simp add: is_stack_def)
  have "\<And>r. r \<in> set (elems_at h a) \<Longrightarrow> layer_at (h @ ext) r = layer_at h r"
    by (rule layer_at_append, rule layer_at_Some_less, rule is_stack_elems[OF s])
  then have "layers_at (h @ ext) (elems_at h a) = layers_at h (elems_at h a)"
    by (rule layers_at_cong)
  then show ?thesis
    by (simp add: stack_at_def elems_at_append[OF a])
qed

lemma is_stack_append:
  assumes s: "is_stack h a"
  shows "is_stack (h @ ext) a"
proof -
  have a: "a < length h" using s by (simp add: is_stack_def)
  have e: "elems_at (h @ ext) a = elems_at h a" by (rule elems_at_append[OF a])
  have "\<And>r. r \<in> set (elems_at h a) \<Longrightarrow> layer_at (h @ ext) r \<noteq> None"
  proof -
    fix r assume r: "r \<in> set (elems_at h a)"
    have "layer_at h r \<noteq> None" by (rule is_stack_elems[OF s r])
    moreover from this have "r < length h" by (rule layer_at_Some_less)
    ultimately show "layer_at (h @ ext) r \<noteq> None" by (simp add: layer_at_append)
  qed
  moreover obtain rs where rs: "h ! a = ArrayObj rs"
    using s by (auto simp: is_stack_def split: obj.splits)
  ultimately show ?thesis
    using a by (simp add: is_stack_def elems_at_def nth_append list_all_iff)
qed

lemma alloc_layers_store: "fst (alloc_layers h ls) = h @ map LayerObj ls"
  by (induction ls arbitrary: h) (simp_all add: alloc_def case_prod_beta)

lemma alloc_layers_refs:
  "r \<in> set (snd (alloc_layers h ls)) \<Longrightarrow> length h \<le> r \<and> r < length h + length ls"
proof (induction ls arbitrary: h)
  case Nil
  then show ?case by simp
next
  case (Cons l ls)
  from Cons.prems have "r = length h \<or> r \<in> set (snd (alloc_layers (h @ [LayerObj l]) ls))"
    by (simp add: alloc_def case_prod_beta)
  then show ?case
  proof
    assume "r = length h" then show ?thesis by simp
  next
    assume "r \<in> set (snd (alloc_layers (h @ [LayerObj l]) ls))"
    from Cons.IH[OF this] show ?thesis by simp
  qed
qed

lemma alloc_layers_read:
  "layers_at (h @ map LayerObj ls @ ext) (snd (alloc_layers h ls)) = ls"
proof (induction ls arbitrary: h)
  case Nil
  then show ?case by simp
next
  case (Cons l ls)
  have "layers_at ((h @ [LayerObj l]) @ map LayerObj ls @ ext)
          (snd (alloc_layers (h @ [LayerObj l]) ls)) = ls"
    by (rule Cons.IH)
  then show ?case
    by (simp add: alloc_def case_prod_beta layer_at_def nth_append)
qed

lemma json_clone_eq:
  "json_clone h a =
     (h @ map LayerObj (stack_at h a) @ [ArrayObj (snd (alloc_layers h (stack_at h a)))],
      length h + length (stack_at h a))"
  using alloc_layers_store[of h "stack_at h a"]
  by (simp add: json_clone_def alloc_def Let_def case_prod_beta)

lemma json_clone_fresh_copy:
  assumes "json_clone h a = (h', c)"
  shows "fresh_copy_of h h' c a"
proof -
  let ?rs = "snd (alloc_layers h (stack_at h a))"
  have h': "h' = h @ map LayerObj (stack_at h a) @ [ArrayObj ?rs]"
    and c: "c = length h + length (stack_at h a)"
    using assms by (simp_all add: json_clone_eq)
  have e: "elems_at h' c = ?rs"
    by (simp add: h' c elems_at_def nth_append)
  have l: "layers_at h' ?rs = stack_at h a"
    unfolding h' by (rule alloc_layers_read)
  have r: "\<And>r. r \<in> set ?rs \<Longrightarrow> length h \<le> r \<and> r < length h + length (stack_at h a)"
    by (rule alloc_layers_refs)
  have "\<And>r. r \<in> set ?rs \<Longrightarrow> layer_at h' r \<noteq> None"
  proof -
    fix r assume "r \<in> set ?rs"
    from r[OF this] have "length h \<le> r" "r - length h < length (stack_at h a)" by auto
    then show "layer_at h' r \<noteq> None"
      by (simp add: h' layer_at_def nth_append)
  qed
  then have "is_stack h' c"
    by (simp add: is_stack_def h' c nth_append list_all_iff)
  moreover have "list_all (\<lambda>r. \<not> allocated h r) ?rs"
    unfolding list_all_iff allocated_def
  proof
    fix x assume "x \<in> set ?rs"
    from r[OF this] show "\<not> x < length h" by simp
  qed
  moreover have "stack_at h' c = stack_at h a"
    unfolding stack_at_def e using l by (simp add: stack_at_def)
  moreover have "\<not> allocated h c"
    by (simp add: allocated_def c)
  ultimately show ?thesis
    unfolding fresh_copy_of_def e by blast
qed

lemma json_clone_extends: "json_clone h a = (h', c) \<Longrightarrow> \<exists>ext. h' = h @ ext"
  by (auto simp: json_clone_eq)
section \<open>Properties of the history timeline\<close>

lemma js_index_in: "0 \<le> i \<Longrightarrow> i < int (length xs) \<Longrightarrow> js_index xs i = Some (xs ! nat i)"
  by (simp add: js_index_def)

lemma js_slice_prefix: "0 \<le> k \<Longrightarrow> js_slice xs 0 k = take (nat k) xs"
  by (simp add: js_slice_def rel_index_def Let_def min_def)

lemma json_clone_store: "json_clone h a = (h', c) \<Longrightarrow> take (length h) h' = h"
  by (auto simp: json_clone_eq)

lemma fresh_copy_distinct: "fresh_copy_of h h' c a \<Longrightarrow> allocated h r \<Longrightarrow> c \<noteq> r"
  by (auto simp: fresh_copy_of_def)

lemma store_ok_item:
  "store_ok h st \<Longrightarrow> k < length (editHistory st) \<Longrightarrow> is_stack h (item_layers (editHistory st ! k))"
  by (simp add: store_ok_def list_all_length)

lemma is_stack_allocated: "is_stack h a \<Longrightarrow> allocated h a"
  by (simp add: is_stack_def allocated_def)

lemma handleUndo_step:
  assumes "0 < currentHistoryIndex st" "currentHistoryIndex st \<le> int (length (editHistory st))"
    and "json_clone h (item_layers (editHistory st ! nat (currentHistoryIndex st - 1))) = (h', c)"
  shows "handleUndo (h, st) =
           Inr (h', st\<lparr> currentHistoryIndex := currentHistoryIndex st - 1, layers := c,
                        resultImage := None \<rparr>)"
  using assms by (simp add: handleUndo_def js_index_in Let_def)

lemma handleRedo_step:
  assumes "- 1 \<le> currentHistoryIndex st" "currentHistoryIndex st < int (length (editHistory st)) - 1"
    and "json_clone h (item_layers (editHistory st ! nat (currentHistoryIndex st + 1))) = (h', c)"
  shows "handleRedo (h, st) =
           Inr (h', st\<lparr> currentHistoryIndex := currentHistoryIndex st + 1, layers := c,
                        resultImage := None \<rparr>)"
  using assms by (simp add: handleRedo_def js_index_in Let_def)

text \<open>
  Claim C4.  On a timeline that is not empty, with the index inside it and every reference
  of the state pointing to a layer array of the store: \<^verbatim>\<open>handleUndo\<close> leaves store and
  state as they are when the index is 0, and otherwise moves the index down by one and makes
  the live stack a fresh deep copy of the snapshot at the new index: an array that was not
  in the store before, of layer objects that were not in the store before, with the layers
  of the snapshot, and so not the array the snapshot refers to; nothing already in the store
  changes.  \<^verbatim>\<open>handleRedo\<close> leaves store and state as they are when the index is the last
  one, and otherwise does the same one index up.
\<close>

theorem undo_redo_steps:
  assumes "editHistory st \<noteq> []"
      and "0 \<le> currentHistoryIndex st"
      and "currentHistoryIndex st < int (length (editHistory st))"
      and "store_ok h st"
  shows "(currentHistoryIndex st = 0 \<longrightarrow> handleUndo (h, st) = Inr (h, st))
       \<and> (currentHistoryIndex st \<noteq> 0 \<longrightarrow>
            (\<exists>h' c. handleUndo (h, st) =
                       Inr (h', st\<lparr> currentHistoryIndex := currentHistoryIndex st - 1,
                                    layers := c, resultImage := None \<rparr>)
                  \<and> fresh_copy_of h h' c
                       (item_layers (editHistory st ! nat (currentHistoryIndex st - 1)))
                  \<and> c \<noteq> item_layers (editHistory st ! nat (currentHistoryIndex st - 1))
                  \<and> take (length h) h' = h))
       \<and> (currentHistoryIndex st = int (length (editHistory st)) - 1 \<longrightarrow>
            handleRedo (h, st) = Inr (h, st))
       \<and> (currentHistoryIndex st \<noteq> int (length (editHistory st)) - 1 \<longrightarrow>
            (\<exists>h' c. handleRedo (h, st) =
                       Inr (h', st\<lparr> currentHistoryIndex := currentHistoryIndex st + 1,
                                    layers := c, resultImage := None \<rparr>)
                  \<and> fresh_copy_of h h' c
                       (item_layers (editHistory st ! nat (currentHistoryIndex st + 1)))
                  \<and> c \<noteq> item_layers (editHistory st ! nat (currentHistoryIndex st + 1))
                  \<and> take (length h) h' = h))"
proof (intro conjI impI)
  assume "currentHistoryIndex st = 0"
  then show "handleUndo (h, st) = Inr (h, st)" by (simp add: handleUndo_def)
next
  assume "currentHistoryIndex st = int (length (editHistory st)) - 1"
  then show "handleRedo (h, st) = Inr (h, st)" by (simp add: handleRedo_def)
next
  assume n: "currentHistoryIndex st \<noteq> 0"
  let ?a = "item_layers (editHistory st ! nat (currentHistoryIndex st - 1))"
  obtain h' c where j: "json_clone h ?a = (h', c)" by (cases "json_clone h ?a")
  have i: "0 < currentHistoryIndex st" using n assms(2) by simp
  have "nat (currentHistoryIndex st - 1) < length (editHistory st)" using i assms(3) by simp
  then have "allocated h ?a"
    using assms(4) by (intro is_stack_allocated store_ok_item)
  with json_clone_fresh_copy[OF j] have "c \<noteq> ?a" by (rule fresh_copy_distinct)
  moreover have "handleUndo (h, st) =
      Inr (h', st\<lparr> currentHistoryIndex := currentHistoryIndex st - 1, layers := c, resultImage := None \<rparr>)"
    using i assms(3) j by (intro handleUndo_step) simp_all
  ultimately show "\<exists>h' c. handleUndo (h, st) =
                       Inr (h', st\<lparr> currentHistoryIndex := currentHistoryIndex st - 1,
                                    layers := c, resultImage := None \<rparr>)
                  \<and> fresh_copy_of h h' c ?a \<and> c \<noteq> ?a \<and> take (length h) h' = h"
    using json_clone_fresh_copy[OF j] json_clone_store[OF j] by blast
next
  assume n: "currentHistoryIndex st \<noteq> int (length (editHistory st)) - 1"
  let ?a = "item_layers (editHistory st ! nat (currentHistoryIndex st + 1))"
  obtain h' c where j: "json_clone h ?a = (h', c)" by (cases "json_clone h ?a")
  have i: "currentHistoryIndex st < int (length (editHistory st)) - 1" using n assms(3) by simp
  have "nat (currentHistoryIndex st + 1) < length (editHistory st)" using i assms(2) by simp
  then have "allocated h ?a"
    using assms(4) by (intro is_stack_allocated store_ok_item)
  with json_clone_fresh_copy[OF j] have "c \<noteq> ?a" by (rule fresh_copy_distinct)
  moreover have "handleRedo (h, st) =
      Inr (h', st\<lparr> currentHistoryIndex := currentHistoryIndex st + 1, layers := c, resultImage := None \<rparr>)"
    using i assms(2) j by (intro handleRedo_step) simp_all
  ultimately show "\<exists>h' c. handleRedo (h, st) =
                       Inr (h', st\<lparr> currentHistoryIndex := currentHistoryIndex st + 1,
                                    layers := c, resultImage := None \<rparr>)
                  \<and> fresh_copy_of h h' c ?a \<and> c \<noteq> ?a \<and> take (length h) h' = h"
    using json_clone_fresh_copy[OF j] json_clone_store[OF j] by blast
qed

lemmas store_eval = json_clone_def stack_at_def elems_at_def layer_at_def alloc_def Let_def
  is_stack_def store_ok_def allocated_def fresh_copy_of_def

subsection \<open>The example timeline\<close>

lemma example_undo:
  "handleUndo (example_store, example_state) = Inr (example_undone_store, example_undone_state)"
  by (simp add: handleUndo_def js_index_def example_store_def example_state_def
        example_undone_store_def example_undone_state_def store_eval)

lemma example_redo:
  "handleRedo (example_undone_store, example_undone_state)
     = Inr (example_redone_store, example_redone_state)"
  by (simp add: handleRedo_def js_index_def example_store_def example_state_def
        example_undone_store_def example_undone_state_def
        example_redone_store_def example_redone_state_def store_eval)

lemma example_store_ok:
  "store_ok example_store example_state"
  "store_ok example_undone_store example_undone_state"
  "store_ok example_store example_dragged_state"
  by (simp_all add: example_store_def example_state_def example_undone_store_def
        example_undone_state_def example_dragged_state_def store_eval)

theorem undo_redo_steps_witness:
  "editHistory example_state \<noteq> [] \<and> currentHistoryIndex example_state = 1
   \<and> length (editHistory example_state) = 2
   \<and> store_ok example_store example_state
   \<and> handleUndo (example_store, example_state) = Inr (example_undone_store, example_undone_state)
   \<and> fresh_copy_of example_store example_undone_store (layers example_undone_state)
         (item_layers (editHistory example_state ! 0))
   \<and> layers example_undone_state \<noteq> item_layers (editHistory example_state ! 0)
   \<and> handleRedo (example_store, example_state) = Inr (example_store, example_state)
   \<and> currentHistoryIndex example_undone_state = 0
   \<and> handleUndo (example_undone_store, example_undone_state)
       = Inr (example_undone_store, example_undone_state)
   \<and> handleRedo (example_undone_store, example_undone_state)
       = Inr (example_redone_store, example_redone_state)
   \<and> fresh_copy_of example_undone_store example_redone_store (layers example_redone_state)
         (item_layers (editHistory example_undone_state ! 1))"
proof -
  have e: "editHistory example_state \<noteq> []" "editHistory example_undone_state \<noteq> []"
    and i: "currentHistoryIndex example_state = 1" "currentHistoryIndex example_undone_state = 0"
    and n: "length (editHistory example_state) = 2" "length (editHistory example_undone_state) = 2"
    by (simp_all add: example_state_def example_undone_state_def)
  note a = undo_redo_steps[where h = example_store and st = example_state,
             OF e(1) _ _ example_store_ok(1)]
  note b = undo_redo_steps[where h = example_undone_store and st = example_undone_state,
             OF e(2) _ _ example_store_ok(2)]
  have a': "handleRedo (example_store, example_state) = Inr (example_store, example_state)"
    and a'': "\<exists>h' c. handleUndo (example_store, example_state) =
                Inr (h', example_state\<lparr> currentHistoryIndex := 0, layers := c, resultImage := None \<rparr>)
              \<and> fresh_copy_of example_store h' c (item_layers (editHistory example_state ! 0))
              \<and> c \<noteq> item_layers (editHistory example_state ! 0)"
    using a by (auto simp: i n)
  have b': "handleUndo (example_undone_store, example_undone_state)
              = Inr (example_undone_store, example_undone_state)"
    and b'': "\<exists>h' c. handleRedo (example_undone_store, example_undone_state) =
                Inr (h', example_undone_state\<lparr> currentHistoryIndex := 1, layers := c, resultImage := None \<rparr>)
              \<and> fresh_copy_of example_undone_store h' c
                    (item_layers (editHistory example_undone_state ! 1))"
    using b by (auto simp: i n)
  from a'' obtain h' c where
     "Inr (example_undone_store, example_undone_state)
        = Inr (h', example_state\<lparr> currentHistoryIndex := 0, layers := c, resultImage := None \<rparr>)"
     and f: "fresh_copy_of example_store h' c (item_layers (editHistory example_state ! 0))"
            "c \<noteq> item_layers (editHistory example_state ! 0)"
    unfolding example_undo by blast
  then have "h' = example_undone_store" "c = layers example_undone_state"
    by (simp_all add: example_undone_state_def example_state_def)
  with f have u: "fresh_copy_of example_store example_undone_store (layers example_undone_state)
         (item_layers (editHistory example_state ! 0))"
         "layers example_undone_state \<noteq> item_layers (editHistory example_state ! 0)" by simp_all
  from b'' obtain h'' c' where
     "Inr (example_redone_store, example_redone_state)
        = Inr (h'', example_undone_state\<lparr> currentHistoryIndex := 1, layers := c', resultImage := None \<rparr>)"
     and g: "fresh_copy_of example_undone_store h'' c'
               (item_layers (editHistory example_undone_state ! 1))"
    unfolding example_redo by blast
  then have "h'' = example_redone_store" "c' = layers example_redone_state"
    by (simp_all add: example_undone_state_def example_redone_state_def example_state_def)
  with g have r: "fresh_copy_of example_undone_store example_redone_store (layers example_redone_state)
         (item_layers (editHistory example_undone_state ! 1))" by simp
  show ?thesis
    using e i n example_store_ok(1) example_undo example_redo a' b' u r by simp
qed

subsection \<open>Undo followed by redo\<close>

text \<open>
  Undo followed by redo makes the live stack a copy of the snapshot at the index; the stack
  that was live before plays no part in the result.
\<close>

lemma undo_then_redo_eq:
  assumes "0 < currentHistoryIndex st" "currentHistoryIndex st < int (length (editHistory st))"
      and "store_ok h st"
  shows "\<exists>h2 c. undo_then_redo (h, st) =
                  Inr (h2, st\<lparr> currentHistoryIndex := currentHistoryIndex st, layers := c,
                               resultImage := None \<rparr>)
              \<and> stack_at h2 c = stack_at h (item_layers (editHistory st ! nat (currentHistoryIndex st)))
              \<and> \<not> allocated h c"
proof -
  let ?i = "currentHistoryIndex st"
  let ?a = "item_layers (editHistory st ! nat (?i - 1))"
  let ?b = "item_layers (editHistory st ! nat ?i)"
  obtain h1 c1 where j1: "json_clone h ?a = (h1, c1)" by (cases "json_clone h ?a")
  let ?st1 = "st\<lparr> currentHistoryIndex := ?i - 1, layers := c1, resultImage := None \<rparr>"
  have u: "handleUndo (h, st) = Inr (h1, ?st1)"
    using assms(1,2) j1 by (intro handleUndo_step) simp_all
  obtain h2 c2 where j2: "json_clone h1 ?b = (h2, c2)" by (cases "json_clone h1 ?b")
  have "handleRedo (h1, ?st1) =
          Inr (h2, ?st1\<lparr> currentHistoryIndex := currentHistoryIndex ?st1 + 1, layers := c2,
                         resultImage := None \<rparr>)"
    using assms(1,2) j2 by (intro handleRedo_step) simp_all
  then have r: "undo_then_redo (h, st) =
          Inr (h2, st\<lparr> currentHistoryIndex := ?i, layers := c2, resultImage := None \<rparr>)"
    by (simp add: undo_then_redo_def u)
  obtain ext where e: "h1 = h @ ext" using json_clone_extends[OF j1] by blast
  have b: "is_stack h ?b"
    using assms by (intro store_ok_item) simp_all
  have f: "fresh_copy_of h1 h2 c2 ?b" by (rule json_clone_fresh_copy[OF j2])
  then have "stack_at h2 c2 = stack_at h1 ?b" by (simp add: fresh_copy_of_def)
  also have "\<dots> = stack_at h ?b" unfolding e by (rule stack_at_append[OF b])
  finally have s: "stack_at h2 c2 = stack_at h ?b" .
  have "\<not> allocated h1 c2" using f by (simp add: fresh_copy_of_def)
  then have "\<not> allocated h c2" by (simp add: allocated_def e)
  with r s show ?thesis by blast
qed

text \<open>
  Claim C5.  In every state in which undo is enabled, undo followed at once by redo is to
  give a layer stack equal, field for field, to the one held before the undo, with the
  index back at its value.  The handlers restore the snapshot at the index (see
  \<open>undo_then_redo_eq\<close>), so this needs every change of a layer to be followed by a snapshot.
  The layers panel does that: its \<^verbatim>\<open>onUpdateLayer\<close> calls \<^verbatim>\<open>updateLayer\<close> and then
  \<^verbatim>\<open>captureHistorySnapshot\<close>.  A drag does not: \<^verbatim>\<open>handleMouseMove\<close> calls
  \<^verbatim>\<open>updateLayer\<close> alone and \<^verbatim>\<open>handleMouseUp\<close> only clears its flags.  In
  \<open>example_dragged_state\<close> the text layer of \<open>example_state\<close> has been dragged to (120, 90):
  the live stack is what \<^verbatim>\<open>updateLayer\<close> makes of the snapshotted stack, and the timeline
  is the one of \<open>example_state\<close>.  Undo is enabled, and undo followed by redo gives the stack
  of the last snapshot, with the text layer back at (50, 50): the drag is lost.
\<close>

theorem undo_then_redo_loses_drag:
  "0 < currentHistoryIndex example_dragged_state
   \<and> currentHistoryIndex example_dragged_state < int (length (editHistory example_dragged_state))
   \<and> store_ok example_store example_dragged_state
   \<and> editHistory example_dragged_state = editHistory example_state
   \<and> live_stack (example_store, example_state) = [example_base, example_text]
   \<and> updateLayer (live_stack (example_store, example_state)) ''text-1700000000001''
         (no_updates\<lparr> upd_x := Some 120, upd_y := Some 90 \<rparr>)
       = live_stack (example_store, example_dragged_state)
   \<and> live_stack (example_store, example_dragged_state) = [example_base, example_dragged_text]
   \<and> outcome_stack (undo_then_redo (example_store, example_dragged_state))
       = Some [example_base, example_text]
   \<and> layer_x example_dragged_text = 120 \<and> layer_x example_text = 50
   \<and> example_dragged_text \<noteq> example_text"
  by (simp add: undo_then_redo_def handleUndo_def handleRedo_def js_index_def outcome_stack_def
        live_stack_def example_store_def example_state_def example_dragged_state_def
        example_dragged_text_def example_text_def example_base_def store_eval
        updateLayer_def spread_def over_def no_updates_def)

subsection \<open>Taking a snapshot\<close>

lemma compose_resolves:
  "context2d e \<Longrightarrow> \<exists>url. fst (composeLayers e ls w h) = Inr url"
  by (simp add: composeLayers_eq)

lemma capture_step:
  assumes "truthy (uploadedImage state) \<noteq> None" "- 1 \<le> currentHistoryIndex prev"
      and "fst (composeLayers e (stack_at h (layers state))
                  (num_or (map_option dim_naturalWidth dims) 800)
                  (num_or (map_option dim_naturalHeight dims) 800)) = Inr composite"
      and "json_clone h (layers prev) = (h', c)"
  shows "captureHistorySnapshot e t_id t_stamp state dims (h, prev) =
             (h', prev\<lparr> editHistory :=
                           take (nat (currentHistoryIndex prev + 1)) (editHistory prev)
                             @ [\<lparr> item_id = show_nat t_id, item_image = composite, item_layers = c,
                                  item_label = ''Action'', item_timestamp = t_stamp \<rparr>],
                         currentHistoryIndex :=
                           int (length (take (nat (currentHistoryIndex prev + 1)) (editHistory prev))) \<rparr>)"
proof -
  obtain u where "truthy (uploadedImage state) = Some u" using assms(1) by auto
  then show ?thesis
    unfolding captureHistorySnapshot_def
    using assms(2-) by (simp add: js_slice_prefix Let_def)
qed





section \<open>Properties of crop\<close>

lemma handleImageUpload_result:
  "\<exists>h' cells'.
     handleImageUpload t_id t_stamp dataUri (h, prev, cells) =
       (h', prev\<lparr> uploadedImage := Some dataUri, originalUploadedImage := Some dataUri,
                   activeFilter := NoFilter, resultImage := None, analysisResult := None,
                   layers := length h + 2, activeLayerId := Some ''layer-base'',
                   editHistory := [\<lparr> item_id = show_nat t_id, item_image = dataUri,
                                     item_layers = length h + 1, item_label = ''Original Upload'',
                                     item_timestamp = t_stamp \<rparr>],
                   currentHistoryIndex := 0, errorMessage := None \<rparr>, cells')
     \<and> h' = h @ [LayerObj (background_layer dataUri), ArrayObj [length h], ArrayObj [length h]]"
  by (simp add: handleImageUpload_def alloc_def background_layer_def Let_def)

lemma upload_stacks:
  "stack_at (h @ [LayerObj l, ArrayObj [length h], ArrayObj [length h]]) (Suc (length h)) = [l]"
  "stack_at (h @ [LayerObj l, ArrayObj [length h], ArrayObj [length h]]) (Suc (Suc (length h))) = [l]"
  by (simp_all add: stack_at_def elems_at_def layer_at_def nth_append)

lemma finalCrop_finite:
  "dim_width dims \<noteq> 0 \<Longrightarrow> dim_height dims \<noteq> 0 \<Longrightarrow>
   finalCrop sel dims =
     \<lparr> crop_x = Finite (sel_x sel * (dim_naturalWidth dims / dim_width dims)),
       crop_y = Finite (sel_y sel * (dim_naturalHeight dims / dim_height dims)),
       crop_width = Finite (sel_width sel * (dim_naturalWidth dims / dim_width dims)),
       crop_height = Finite (sel_height sel * (dim_naturalHeight dims / dim_height dims)) \<rparr>"
  by (simp add: finalCrop_def js_div_def js_mul_def Let_def)

text \<open>
  Claim C1.  When a selection, an uploaded image and the image dimensions are present,
  \<^verbatim>\<open>applyCurrentCrop\<close> crops with the selection whose four numbers have been multiplied
  by the ratio of natural to displayed size of their axis (a finite rectangle when the
  displayed sizes are not zero).  When the image loads and a 2D context is available, the
  crop succeeds and afterwards the layer stack holds exactly one layer, the background layer
  whose source is the cropped image, the timeline holds exactly one snapshot, of that same
  stack, and the index is 0.
\<close>

theorem crop_scales_and_resets:
  assumes "cropSelection rendered = Some sel" "truthy (uploadedImage state) = Some uploaded"
      and "imageDimensions rendered = Some dims"
      and "decode e uploaded = Some img" "context2d e"
  shows "(dim_width dims \<noteq> 0 \<and> dim_height dims \<noteq> 0 \<longrightarrow>
            finalCrop sel dims =
              \<lparr> crop_x = Finite (sel_x sel * (dim_naturalWidth dims / dim_width dims)),
                crop_y = Finite (sel_y sel * (dim_naturalHeight dims / dim_height dims)),
                crop_width = Finite (sel_width sel * (dim_naturalWidth dims / dim_width dims)),
                crop_height = Finite (sel_height sel * (dim_naturalHeight dims / dim_height dims)) \<rparr>)
       \<and> (\<exists>h' st' cells' cropped.
             applyCurrentCrop e t_id t_stamp state rendered (h, prev, cells) = (h', st', cells')
           \<and> cropImage e uploaded (finalCrop sel dims) = Inr cropped
           \<and> cropped = toDataURL e
                 \<lparr> raster_width = crop_width (finalCrop sel dims),
                   raster_height = crop_height (finalCrop sel dims),
                   raster_ops = [DrawImageRegion gstate_init img (finalCrop sel dims)
                                   \<lparr> crop_x = Finite 0, crop_y = Finite 0,
                                     crop_width = crop_width (finalCrop sel dims),
                                     crop_height = crop_height (finalCrop sel dims) \<rparr>] \<rparr>
                 (getMimeTypeFromDataUri uploaded)
           \<and> live_stack (h', st') = [background_layer cropped]
           \<and> length (editHistory st') = 1
           \<and> stack_at h' (item_layers (hd (editHistory st'))) = [background_layer cropped]
           \<and> currentHistoryIndex st' = 0
           \<and> uploadedImage st' = Some cropped)"
proof (intro conjI impI)
  assume "dim_width dims \<noteq> 0 \<and> dim_height dims \<noteq> 0"
  then show "finalCrop sel dims =
              \<lparr> crop_x = Finite (sel_x sel * (dim_naturalWidth dims / dim_width dims)),
                crop_y = Finite (sel_y sel * (dim_naturalHeight dims / dim_height dims)),
                crop_width = Finite (sel_width sel * (dim_naturalWidth dims / dim_width dims)),
                crop_height = Finite (sel_height sel * (dim_naturalHeight dims / dim_height dims)) \<rparr>"
    by (simp add: finalCrop_finite)
next
  define cropped where "cropped = toDataURL e
                 \<lparr> raster_width = crop_width (finalCrop sel dims),
                   raster_height = crop_height (finalCrop sel dims),
                   raster_ops = [DrawImageRegion gstate_init img (finalCrop sel dims)
                                   \<lparr> crop_x = Finite 0, crop_y = Finite 0,
                                     crop_width = crop_width (finalCrop sel dims),
                                     crop_height = crop_height (finalCrop sel dims) \<rparr>] \<rparr>
                 (getMimeTypeFromDataUri uploaded)"
  have c: "cropImage e uploaded (finalCrop sel dims) = Inr cropped"
    using assms(4,5)
    by (simp add: cropImage_def drawImageRegion_def ctx_init_def Let_def cropped_def)
  have a: "applyCurrentCrop e t_id t_stamp state rendered (h, prev, cells)
             = handleImageUpload t_id t_stamp cropped (h, prev, cells)"
    using assms(1-3) c by (simp add: applyCurrentCrop_def)
  define st' where "st' = prev\<lparr> uploadedImage := Some cropped, originalUploadedImage := Some cropped,
                   activeFilter := NoFilter, resultImage := None, analysisResult := None,
                   layers := length h + 2, activeLayerId := Some ''layer-base'',
                   editHistory := [\<lparr> item_id = show_nat t_id, item_image = cropped,
                                     item_layers = length h + 1, item_label = ''Original Upload'',
                                     item_timestamp = t_stamp \<rparr>],
                   currentHistoryIndex := 0, errorMessage := None \<rparr>"
  from handleImageUpload_result[of t_id t_stamp cropped h prev cells]
  obtain h' cells' where
    r: "handleImageUpload t_id t_stamp cropped (h, prev, cells) = (h', st', cells')"
    and h': "h' = h @ [LayerObj (background_layer cropped), ArrayObj [length h], ArrayObj [length h]]"
    unfolding st'_def by blast
  have l: "live_stack (h', st') = [background_layer cropped]"
    unfolding h' by (simp add: live_stack_def upload_stacks st'_def)
  have s: "stack_at h' (item_layers (hd (editHistory st'))) = [background_layer cropped]"
    unfolding h' by (simp add: upload_stacks st'_def)
  have n: "length (editHistory st') = 1" "currentHistoryIndex st' = 0"
    "uploadedImage st' = Some cropped" by (simp_all add: st'_def)
  have "applyCurrentCrop e t_id t_stamp state rendered (h, prev, cells) = (h', st', cells')"
    using a r by simp
  with c l s n cropped_def
  show "\<exists>h' st' cells' cropped.
             applyCurrentCrop e t_id t_stamp state rendered (h, prev, cells) = (h', st', cells')
           \<and> cropImage e uploaded (finalCrop sel dims) = Inr cropped
           \<and> cropped = toDataURL e
                 \<lparr> raster_width = crop_width (finalCrop sel dims),
                   raster_height = crop_height (finalCrop sel dims),
                   raster_ops = [DrawImageRegion gstate_init img (finalCrop sel dims)
                                   \<lparr> crop_x = Finite 0, crop_y = Finite 0,
                                     crop_width = crop_width (finalCrop sel dims),
                                     crop_height = crop_height (finalCrop sel dims) \<rparr>] \<rparr>
                 (getMimeTypeFromDataUri uploaded)
           \<and> live_stack (h', st') = [background_layer cropped]
           \<and> length (editHistory st') = 1
           \<and> stack_at h' (item_layers (hd (editHistory st'))) = [background_layer cropped]
           \<and> currentHistoryIndex st' = 0
           \<and> uploadedImage st' = Some cropped"
    by blast
qed

theorem crop_scales_and_resets_witness:
  "cropSelection example_cells = Some \<lparr> sel_x = 10, sel_y = 10, sel_width = 50, sel_height = 50 \<rparr>
   \<and> imageDimensions example_cells
       = Some \<lparr> dim_width = 400, dim_height = 300, dim_naturalWidth = 800, dim_naturalHeight = 600 \<rparr>
   \<and> truthy (uploadedImage example_state) = Some ''data:image/png;base64,AAAA''
   \<and> finalCrop \<lparr> sel_x = 10, sel_y = 10, sel_width = 50, sel_height = 50 \<rparr>
         \<lparr> dim_width = 400, dim_height = 300, dim_naturalWidth = 800, dim_naturalHeight = 600 \<rparr>
       = \<lparr> crop_x = Finite 20, crop_y = Finite 20, crop_width = Finite 100, crop_height = Finite 100 \<rparr>
   \<and> live_stack (fst (applyCurrentCrop example_env 1700000000007 1700000000008 example_state
                          example_cells (example_store, example_dragged_state, example_cells)),
                  fst (snd (applyCurrentCrop example_env 1700000000007 1700000000008 example_state
                          example_cells (example_store, example_dragged_state, example_cells))))
       = [background_layer example_cropped]
   \<and> length (editHistory (fst (snd (applyCurrentCrop example_env 1700000000007 1700000000008
                          example_state example_cells
                          (example_store, example_dragged_state, example_cells))))) = 1
   \<and> currentHistoryIndex (fst (snd (applyCurrentCrop example_env 1700000000007 1700000000008
                          example_state example_cells
                          (example_store, example_dragged_state, example_cells)))) = 0"
proof -
  let ?sel = "\<lparr> sel_x = 10, sel_y = 10, sel_width = 50, sel_height = 50 \<rparr>"
  let ?dims = "\<lparr> dim_width = 400, dim_height = 300, dim_naturalWidth = 800, dim_naturalHeight = 600 \<rparr>"
  let ?img = "\<lparr> img_src = ''data:image/png;base64,AAAA'', img_width = 800, img_height = 600 \<rparr>"
  have s: "cropSelection example_cells = Some ?sel"
    and d: "imageDimensions example_cells = Some ?dims"
    by (simp_all add: example_cells_def)
  have u: "truthy (uploadedImage example_state) = Some ''data:image/png;base64,AAAA''"
    by (simp add: example_state_def truthy_def)
  have i: "decode example_env ''data:image/png;base64,AAAA'' = Some ?img"
    and c: "context2d example_env"
    by (simp_all add: example_env_def)
  have n: "dim_width ?dims \<noteq> 0 \<and> dim_height ?dims \<noteq> 0" by simp
  have e: "\<And>r t. toDataURL example_env r t
             = ''data:'' @ t @ '';base64,'' @ replicate (length (raster_ops r)) CHR ''A''"
    by (simp add: example_env_def)
  have m: "getMimeTypeFromDataUri ''data:image/png;base64,AAAA'' = ''image/png''"
    by (simp add: getMimeTypeFromDataUri_def)
  note t = crop_scales_and_resets[OF s u d i c, where t_id = 1700000000007
             and t_stamp = 1700000000008 and h = example_store and prev = example_dragged_state
             and cells = example_cells]
  from t n have f: "finalCrop ?sel ?dims
       = \<lparr> crop_x = Finite 20, crop_y = Finite 20, crop_width = Finite 100, crop_height = Finite 100 \<rparr>"
    by simp
  from t obtain h' st' cells' cropped where
    a: "applyCurrentCrop example_env 1700000000007 1700000000008 example_state example_cells
          (example_store, example_dragged_state, example_cells) = (h', st', cells')"
    and k: "cropped = toDataURL example_env
                 \<lparr> raster_width = crop_width (finalCrop ?sel ?dims),
                   raster_height = crop_height (finalCrop ?sel ?dims),
                   raster_ops = [DrawImageRegion gstate_init ?img (finalCrop ?sel ?dims)
                                   \<lparr> crop_x = Finite 0, crop_y = Finite 0,
                                     crop_width = crop_width (finalCrop ?sel ?dims),
                                     crop_height = crop_height (finalCrop ?sel ?dims) \<rparr>] \<rparr>
                 (getMimeTypeFromDataUri ''data:image/png;base64,AAAA'')"
    and r: "live_stack (h', st') = [background_layer cropped]"
           "length (editHistory st') = 1" "currentHistoryIndex st' = 0"
    by blast
  have "cropped = example_cropped"
    unfolding k by (simp add: e m example_cropped_def)
  with a r s d u f show ?thesis by simp
qed

section \<open>The states the editor reaches\<close>

text \<open>
  The conditions under which the properties of the timeline are stated hold after an
  upload and are kept by undo, redo and every snapshot.
\<close>

lemma store_ok_extend:
  assumes "store_ok h st" "is_stack (h @ ext) c"
  shows "store_ok (h @ ext) (st\<lparr> layers := c \<rparr>)"
  using assms by (auto simp: store_ok_def list_all_iff intro: is_stack_append)

lemma upload_invariant:
  assumes "handleImageUpload t_id t_stamp dataUri (h, prev, cells) = (h', st', cells')"
  shows "timeline_ok st' \<and> store_ok h' st'"
proof -
  from handleImageUpload_result[of t_id t_stamp dataUri h prev cells] assms
  have st': "editHistory st' = [\<lparr> item_id = show_nat t_id, item_image = dataUri,
                                     item_layers = length h + 1, item_label = ''Original Upload'',
                                     item_timestamp = t_stamp \<rparr>]"
            "currentHistoryIndex st' = 0" "layers st' = length h + 2"
    and h': "h' = h @ [LayerObj (background_layer dataUri), ArrayObj [length h], ArrayObj [length h]]"
    by auto
  have "is_stack h' (length h + 1)" "is_stack h' (length h + 2)"
    unfolding h' by (simp_all add: is_stack_def nth_append layer_at_def)
  then show ?thesis
    by (simp add: timeline_ok_def store_ok_def st')
qed

lemma undo_invariant:
  assumes "timeline_ok st" "store_ok h st" "handleUndo (h, st) = Inr (h', st')"
  shows "timeline_ok st' \<and> store_ok h' st'"
proof (cases "currentHistoryIndex st = 0")
  case True
  then have "handleUndo (h, st) = Inr (h, st)" by (simp add: handleUndo_def)
  with assms show ?thesis by simp
next
  case False
  let ?a = "item_layers (editHistory st ! nat (currentHistoryIndex st - 1))"
  obtain h1 c where j: "json_clone h ?a = (h1, c)" by (cases "json_clone h ?a")
  have i: "0 < currentHistoryIndex st" "currentHistoryIndex st \<le> int (length (editHistory st))"
    using False assms(1) by (simp_all add: timeline_ok_def)
  from handleUndo_step[OF i j] assms(3)
  have e: "h' = h1" "st' = st\<lparr> currentHistoryIndex := currentHistoryIndex st - 1, layers := c,
                               resultImage := None \<rparr>" by simp_all
  obtain ext where x: "h1 = h @ ext" using json_clone_extends[OF j] by blast
  have "is_stack h1 c" using json_clone_fresh_copy[OF j] by (simp add: fresh_copy_of_def)
  then have "store_ok h1 (st\<lparr> layers := c \<rparr>)"
    unfolding x using assms(2) by (intro store_ok_extend)
  then have "store_ok h' st'" by (simp add: e store_ok_def)
  moreover have "timeline_ok st'" using assms(1) i by (simp add: e timeline_ok_def)
  ultimately show ?thesis by simp
qed

lemma redo_invariant:
  assumes "timeline_ok st" "store_ok h st" "handleRedo (h, st) = Inr (h', st')"
  shows "timeline_ok st' \<and> store_ok h' st'"
proof (cases "currentHistoryIndex st < int (length (editHistory st)) - 1")
  case False
  then have "handleRedo (h, st) = Inr (h, st)" by (simp add: handleRedo_def)
  with assms show ?thesis by simp
next
  case True
  let ?a = "item_layers (editHistory st ! nat (currentHistoryIndex st + 1))"
  obtain h1 c where j: "json_clone h ?a = (h1, c)" by (cases "json_clone h ?a")
  have i: "- 1 \<le> currentHistoryIndex st" using assms(1) by (simp add: timeline_ok_def)
  from handleRedo_step[OF i True j] assms(3)
  have e: "h' = h1" "st' = st\<lparr> currentHistoryIndex := currentHistoryIndex st + 1, layers := c,
                               resultImage := None \<rparr>" by simp_all
  obtain ext where x: "h1 = h @ ext" using json_clone_extends[OF j] by blast
  have "is_stack h1 c" using json_clone_fresh_copy[OF j] by (simp add: fresh_copy_of_def)
  then have "store_ok h1 (st\<lparr> layers := c \<rparr>)"
    unfolding x using assms(2) by (intro store_ok_extend)
  then have "store_ok h' st'" by (simp add: e store_ok_def)
  moreover have "timeline_ok st'" using assms(1) True by (simp add: e timeline_ok_def)
  ultimately show ?thesis by simp
qed

lemma capture_invariant:
  assumes "timeline_ok prev" "store_ok h prev"
    and "captureHistorySnapshot e t_id t_stamp state dims (h, prev) = (h', st')"
  shows "timeline_ok st' \<and> store_ok h' st'"
proof (cases "truthy (uploadedImage state) \<noteq> None \<and> context2d e")
  case False
  then have "captureHistorySnapshot e t_id t_stamp state dims (h, prev) = (h, prev)"
    by (auto simp: captureHistorySnapshot_def composeLayers_eq)
  with assms show ?thesis by simp
next
  case True
  obtain h1 c where j: "json_clone h (layers prev) = (h1, c)" by (cases "json_clone h (layers prev)")
  obtain composite where
    "fst (composeLayers e (stack_at h (layers state))
            (num_or (map_option dim_naturalWidth dims) 800)
            (num_or (map_option dim_naturalHeight dims) 800)) = Inr composite"
    using compose_resolves True by blast
  moreover have "- 1 \<le> currentHistoryIndex prev" using assms(1) by (simp add: timeline_ok_def)
  ultimately have s: "captureHistorySnapshot e t_id t_stamp state dims (h, prev) =
             (h1, prev\<lparr> editHistory :=
                           take (nat (currentHistoryIndex prev + 1)) (editHistory prev)
                             @ [\<lparr> item_id = show_nat t_id, item_image = composite, item_layers = c,
                                  item_label = ''Action'', item_timestamp = t_stamp \<rparr>],
                         currentHistoryIndex :=
                           int (length (take (nat (currentHistoryIndex prev + 1)) (editHistory prev))) \<rparr>)"
    using True j by (intro capture_step) simp_all
  obtain ext where x: "h1 = h @ ext" using json_clone_extends[OF j] by blast
  have c: "is_stack h1 c" using json_clone_fresh_copy[OF j] by (simp add: fresh_copy_of_def)
  have l: "is_stack h1 (layers prev)"
    unfolding x using assms(2) by (intro is_stack_append) (simp add: store_ok_def)
  have "\<And>it. it \<in> set (take (nat (currentHistoryIndex prev + 1)) (editHistory prev))
          \<Longrightarrow> is_stack h1 (item_layers it)"
    unfolding x using assms(2) by (auto simp: store_ok_def list_all_iff dest: in_set_takeD intro: is_stack_append)
  with c l s assms(3) show ?thesis
    by (auto simp: timeline_ok_def store_ok_def list_all_iff)
qed

end
